theory Spec2Isabelle
  imports Main
begin

section \<open>JavaScript data\<close>

text \<open>
  The configuration document, the build configuration and the team entries are JSON
  data: \<^verbatim>\<open>settings.js\<close> reads them with \<^verbatim>\<open>JSON.parse\<close> and copies them
  with \<^verbatim>\<open>JSON.parse(JSON.stringify(x))\<close>. An object is the list of its
  properties in insertion order; numbers are the integers.
\<close>

datatype json =
    JNull
  | JBool bool
  | JNum int
  | JStr string
  | JArr "json list"
  | JObj "(string \<times> json) list"

text \<open>A JavaScript value that may be \<^verbatim>\<open>undefined\<close>: \<open>None\<close> is \<^verbatim>\<open>undefined\<close>.\<close>

type_synonym jsval = "json option"

text \<open>
  \<^verbatim>\<open>o.p\<close> for a property \<open>p\<close> other than \<^verbatim>\<open>length\<close>: an object gives the
  property or \<^verbatim>\<open>undefined\<close>; a string, number, boolean or array has no such own
  property; \<^verbatim>\<open>null\<close> is handled by the callers (a \<^verbatim>\<open>TypeError\<close>).
\<close>

fun get_prop :: "json \<Rightarrow> string \<Rightarrow> jsval" where
  "get_prop (JObj fs) p = map_of fs p"
| "get_prop _ p = None"

text \<open>The \<^verbatim>\<open>url\<close> of a team entry, \<^verbatim>\<open>undefined\<close> when it has none.\<close>

definition team_url :: "json \<Rightarrow> jsval" where
  "team_url t = get_prop t ''url''"

section \<open>Merging the vendor defaults with the user's teams\<close>

text \<open>
  \<^verbatim>\<open>buildConfig\<close> is imported from \<^verbatim>\<open>./config/buildConfig\<close>; the two properties
  \<^verbatim>\<open>mergeDefaultTeams\<close> reads are the fields of this record.
\<close>

record build_config =
  defaultTeams :: "json list"
  enableServerManagement :: bool

definition hasBuildConfigDefaultTeams :: "build_config \<Rightarrow> bool" where
  "hasBuildConfigDefaultTeams config = (length (defaultTeams config) > 0)"

text \<open>
  \<^verbatim>\<open>JSON.parse(JSON.stringify(x))\<close> builds a structurally equal copy of JSON data;
  on values it is the identity. (The store model further down gives the copy its own
  addresses.)
\<close>

definition deepCopy :: "json list \<Rightarrow> json list" where
  "deepCopy xs = xs"

text \<open>
  \<^verbatim>\<open>
  function mergeDefaultTeams(servers) {
    const newServers = [];
    if (hasBuildConfigDefaultTeams(buildConfig)) {
      newServers.push(...JSON.parse(JSON.stringify(buildConfig.defaultTeams)));
    }
    if (buildConfig.enableServerManagement) {
      newServers.push(...JSON.parse(JSON.stringify(servers)));
    }
    return newServers;
  }
  \<close>
\<close>

definition mergeDefaultTeams :: "build_config \<Rightarrow> json list \<Rightarrow> json list" where
  "mergeDefaultTeams buildConfig servers =
     (let newServers = [];
          newServers = (if hasBuildConfigDefaultTeams buildConfig
                        then newServers @ deepCopy (defaultTeams buildConfig)
                        else newServers);
          newServers = (if enableServerManagement buildConfig
                        then newServers @ deepCopy servers
                        else newServers)
      in newServers)"

text \<open>The entries of a list that carry a given url.\<close>

definition with_url :: "string \<Rightarrow> json list \<Rightarrow> json list" where
  "with_url u ts = filter (\<lambda>t. team_url t = Some (JStr u)) ts"

section \<open>JavaScript operators on JSON data\<close>

text \<open>Exceptions of the program and of the runtime, as values.\<close>

datatype error =
    VersionError jsval jsval  \<comment> \<open>\<^verbatim>\<open>new Error('version ' + a + ' is not equal to ' + b)\<close>\<close>
  | TypeError
  | ReferenceError
  | SyntaxError  \<comment> \<open>\<^verbatim>\<open>JSON.parse\<close> on text that is not JSON\<close>
  | FsError string  \<comment> \<open>a failed file-system call, with its code\<close>
  | RegistryItemNotFoundException
  | OtherError  \<comment> \<open>any other exception of a collaborator\<close>

text \<open>
  \<^verbatim>\<open>a === b\<close>. Primitives compare by value. Two objects or arrays are equal only
  when they are the same object; every pair compared in \<^verbatim>\<open>settings.js\<close> comes
  from two different parses or copies, so such a pair is never equal.
\<close>

fun strict_eq :: "jsval \<Rightarrow> jsval \<Rightarrow> bool" where
  "strict_eq None None = True"
| "strict_eq (Some JNull) (Some JNull) = True"
| "strict_eq (Some (JBool a)) (Some (JBool b)) = (a = b)"
| "strict_eq (Some (JNum a)) (Some (JNum b)) = (a = b)"
| "strict_eq (Some (JStr a)) (Some (JStr b)) = (a = b)"
| "strict_eq _ _ = False"

text \<open>Truthiness, as \<^verbatim>\<open>if (v)\<close>, \<^verbatim>\<open>!v\<close> and \<^verbatim>\<open>&&\<close> test it.\<close>

fun truthy :: "jsval \<Rightarrow> bool" where
  "truthy None = False"
| "truthy (Some JNull) = False"
| "truthy (Some (JBool b)) = b"
| "truthy (Some (JNum n)) = (n \<noteq> 0)"
| "truthy (Some (JStr s)) = (s \<noteq> [])"
| "truthy (Some (JArr _)) = True"
| "truthy (Some (JObj _)) = True"

text \<open>\<^verbatim>\<open>o[p] = v\<close> on the property list of an object: replace in place, else append.\<close>

fun set_prop :: "(string \<times> json) list \<Rightarrow> string \<Rightarrow> json \<Rightarrow> (string \<times> json) list" where
  "set_prop [] p v = [(p, v)]"
| "set_prop ((q, w) # fs) p v = (if q = p then (p, v) # fs else (q, w) # set_prop fs p v)"

definition digit_char :: "nat \<Rightarrow> char" where
  "digit_char d = ''0123456789'' ! d"

fun show_nat :: "nat \<Rightarrow> string" where
  "show_nat n = (if n < 10 then [digit_char n]
                 else show_nat (n div 10) @ [digit_char (n mod 10)])"

text \<open>
  The own enumerable properties \<^verbatim>\<open>Object.assign\<close> copies from a source: those of
  an object; the indices of an array; the indices of a string, each with its
  character; none for \<^verbatim>\<open>null\<close>, a number or a boolean. (JavaScript enumerates
  integer-like keys of an object first; that reordering is not modelled.)
\<close>

fun own_props :: "json \<Rightarrow> (string \<times> json) list" where
  "own_props (JObj fs) = fs"
| "own_props (JArr xs) = map (\<lambda>i. (show_nat i, xs ! i)) [0..<length xs]"
| "own_props (JStr s) = map (\<lambda>i. (show_nat i, JStr [s ! i])) [0..<length s]"
| "own_props _ = []"

definition object_assign :: "(string \<times> json) list \<Rightarrow> json \<Rightarrow> (string \<times> json) list" where
  "object_assign acc src = fold (\<lambda>(p, v) fs. set_prop fs p v) (own_props src) acc"

text \<open>
  \<^verbatim>\<open>
  function merge(base, target) {
    return Object.assign({}, base, target);
  }
  \<close>
\<close>

definition merge :: "json \<Rightarrow> json \<Rightarrow> json" where
  "merge base target = JObj (object_assign (object_assign [] base) target)"

section \<open>The file system and the host\<close>

text \<open>
  \<^verbatim>\<open>path.dirname\<close> of Node for POSIX paths: the path up to the last separator that
  follows a name, scanning from the right and never looking at the first character.
\<close>

fun scan_dirname :: "string \<Rightarrow> bool \<Rightarrow> string option" where
  "scan_dirname [] matchedSlash = None"
| "scan_dirname (c # cs) matchedSlash =
     (if c = CHR ''/''
      then (if \<not> matchedSlash then Some cs else scan_dirname cs matchedSlash)
      else scan_dirname cs False)"

definition dirname :: "string \<Rightarrow> string" where
  "dirname p =
     (case p of
        [] \<Rightarrow> ''.''
      | c0 # rest \<Rightarrow>
          (case scan_dirname (rev rest) True of
             None \<Rightarrow> (if c0 = CHR ''/'' then ''/'' else ''.'')
           | Some cs \<Rightarrow> (if c0 = CHR ''/'' \<and> cs = [] then ''//'' else c0 # rev cs)))"

text \<open>The calls \<^verbatim>\<open>settings.js\<close> makes on the \<^verbatim>\<open>fs\<close> module, as a log.\<close>

datatype fs_call =
    FsReadFileSync string
  | FsExistsSync string
  | FsMkdirSync string
  | FsWriteFileSync string string

text \<open>
  The world outside the module: directories, files with their text, files that exist
  but cannot be read, the log of \<^verbatim>\<open>fs\<close> calls, the module variable
  \<^verbatim>\<open>configFile\<close> (\<open>None\<close> is \<^verbatim>\<open>undefined\<close>) and whether the host was told to
  disable hardware acceleration.
\<close>

record world =
  dirs :: "string set"
  files :: "string \<rightharpoonup> string"
  unreadable :: "string set"
  calls :: "fs_call list"
  configFile :: "string option"
  hardwareAccelerationDisabled :: bool

text \<open>
  What can go wrong in one call of \<open>writeFileSync\<close> beyond what the state of the
  file system decides: \<^verbatim>\<open>fs.mkdirSync\<close> is refused, the file cannot be opened for
  writing, or the write stops after some characters have reached the file.
\<close>

datatype fault = NoFault | MkdirFails | OpenFails | WriteFailsAfter nat

definition fs_readFileSync :: "string \<Rightarrow> world \<Rightarrow> (error + string) \<times> world" where
  "fs_readFileSync p w =
     (let w' = w\<lparr>calls := calls w @ [FsReadFileSync p]\<rparr> in
      case files w p of
        None \<Rightarrow> (Inl (FsError ''ENOENT''), w')
      | Some text \<Rightarrow> (if p \<in> unreadable w then (Inl (FsError ''EACCES''), w')
                     else (Inr text, w')))"

definition fs_existsSync :: "string \<Rightarrow> world \<Rightarrow> bool \<times> world" where
  "fs_existsSync p w =
     (p \<in> dirs w \<or> files w p \<noteq> None, w\<lparr>calls := calls w @ [FsExistsSync p]\<rparr>)"

text \<open>\<^verbatim>\<open>fs.mkdirSync(dir)\<close> makes one directory; its parent must exist.\<close>

definition fs_mkdirSync :: "fault \<Rightarrow> string \<Rightarrow> world \<Rightarrow> (error + unit) \<times> world" where
  "fs_mkdirSync fault dir w =
     (let w' = w\<lparr>calls := calls w @ [FsMkdirSync dir]\<rparr> in
      if dir \<in> dirs w \<or> files w dir \<noteq> None then (Inl (FsError ''EEXIST''), w')
      else if dirname dir \<notin> dirs w then (Inl (FsError ''ENOENT''), w')
      else if fault = MkdirFails then (Inl (FsError ''EACCES''), w')
      else (Inr (), w'\<lparr>dirs := insert dir (dirs w)\<rparr>))"

text \<open>
  \<^verbatim>\<open>fs.writeFileSync(file, data, 'utf8')\<close> opens the file itself with flag \<^verbatim>\<open>w\<close>
  (create or truncate), writes, and closes. A failure at the open leaves the file as
  it was; a failure after the open leaves the characters written so far.
\<close>

definition fs_writeFileSync :: "fault \<Rightarrow> string \<Rightarrow> string \<Rightarrow> world \<Rightarrow> (error + unit) \<times> world" where
  "fs_writeFileSync fault p data w =
     (let w' = w\<lparr>calls := calls w @ [FsWriteFileSync p data]\<rparr> in
      if p \<in> dirs w then (Inl (FsError ''EISDIR''), w')
      else if dirname p \<notin> dirs w then (Inl (FsError ''ENOENT''), w')
      else (case fault of
              OpenFails \<Rightarrow> (Inl (FsError ''EACCES''), w')
            | WriteFailsAfter n \<Rightarrow>
                (Inl (FsError ''EIO''), w'\<lparr>files := (files w)(p \<mapsto> take n data)\<rparr>)
            | _ \<Rightarrow> (Inr (), w'\<lparr>files := (files w)(p \<mapsto> data)\<rparr>)))"

section \<open>The policy store\<close>

text \<open>
  The registry is reached through the \<^verbatim>\<open>winreg\<close> package: a key object is made
  from a hive and a path, and \<^verbatim>\<open>regKey.values(callback)\<close> hands the entries of
  the key to the callback. The package is not part of the repository; a key is
  modelled by what its \<^verbatim>\<open>values\<close> does with the callback. Both functions of
  \<^verbatim>\<open>settings.js\<close> that use it are written for a callback that has run when
  \<^verbatim>\<open>values\<close> returns (the first two outcomes); the package itself calls back
  after the caller has gone on (the third).
\<close>

datatype hive = HKCU | HKLM

record registry_item =
  item_name :: string
  item_value :: string

datatype values_outcome =
    ValuesError  \<comment> \<open>the callback runs with \<^verbatim>\<open>err\<close> set\<close>
  | ValuesItems "registry_item list"  \<comment> \<open>the callback runs with the entries of the key\<close>
  | ValuesDeferred  \<comment> \<open>\<^verbatim>\<open>values\<close> returns before the callback has run\<close>
  | ValuesThrows  \<comment> \<open>\<^verbatim>\<open>values\<close> raises an exception of its own\<close>

type_synonym registry = "hive \<Rightarrow> string \<Rightarrow> values_outcome"

text \<open>
  \<^verbatim>\<open>regKey.values(callback)\<close>: an exception of the callback passes through to the
  caller; what the callback returns is kept here only to show what becomes of it
  (\<open>None\<close> when the callback has not run).
\<close>

definition regKey_values ::
  "values_outcome \<Rightarrow> (bool \<Rightarrow> registry_item list \<Rightarrow> error + 'a) \<Rightarrow> error + 'a option" where
  "regKey_values regKey callback =
     (case regKey of
        ValuesError \<Rightarrow> (case callback True [] of Inl e \<Rightarrow> Inl e | Inr r \<Rightarrow> Inr (Some r))
      | ValuesItems items \<Rightarrow>
          (case callback False items of Inl e \<Rightarrow> Inl e | Inr r \<Rightarrow> Inr (Some r))
      | ValuesDeferred \<Rightarrow> Inr None
      | ValuesThrows \<Rightarrow> Inl OtherError)"

text \<open>
  The callback of \<^verbatim>\<open>getRegistryItemValue\<close>:
  \<^verbatim>\<open>
  function (err, items) {
    if (err) { throw new RegistryItemNotFoundException(); }
    var i;
    for (i = 0; i < items.length; i++) {
      if (items[i].name === item) { return items[i].value; }
    }
    if (i == items.length) { throw new RegistryItemNotFoundException(); }
  }
  \<close>
\<close>

definition item_callback :: "string \<Rightarrow> bool \<Rightarrow> registry_item list \<Rightarrow> error + jsval" where
  "item_callback item err items =
     (if err then Inl RegistryItemNotFoundException
      else (case find (\<lambda>it. item_name it = item) items of
              Some it \<Rightarrow> Inr (Some (JStr (item_value it)))
            | None \<Rightarrow> Inl RegistryItemNotFoundException))"

text \<open>
  \<^verbatim>\<open>
  function getRegistryItemValue(regKey, item) {
    regKey.values(function (err, items) { ... });
  }
  \<close>
  The function has no \<^verbatim>\<open>return\<close> of its own: its value is \<^verbatim>\<open>undefined\<close>.
\<close>

definition getRegistryItemValue :: "values_outcome \<Rightarrow> string \<Rightarrow> error + jsval" where
  "getRegistryItemValue regKey item =
     (case regKey_values regKey (item_callback item) of
        Inl e \<Rightarrow> Inl e
      | Inr returned_by_callback \<Rightarrow> Inr None)"

definition policy_key :: string where
  "policy_key = [CHR 0x5C] @ ''Software'' @ [CHR 0x5C] @ ''Policies'' @ [CHR 0x5C] @ ''Mattermost''"

definition server_list_key :: string where
  "server_list_key = policy_key @ [CHR 0x5C] @ ''DefaultServerList''"

text \<open>
  One \<^verbatim>\<open>try\<close> block of \<^verbatim>\<open>isAddingNewServerPreventedByGPO\<close> with its
  \<^verbatim>\<open>catch\<close>: \<open>Inr True\<close> is \<^verbatim>\<open>return true\<close>, \<open>Inr False\<close> is falling out of
  the block, \<open>Inl\<close> an exception that is thrown again.
  \<^verbatim>\<open>
  try {
    var regKey = new WindowsRegistry({ hive: ..., key: '\\Software\\Policies\\Mattermost' });
    var regItemValue = getRegistryItemValue(regKey, "PreventAddNewServer");
    if (regItemValue === 1) { return true; }
  } catch (e) {
    if (!(e instanceof RegistryItemNotFoundException)) { throw e; }
  }
  \<close>
\<close>

definition prevent_block :: "registry \<Rightarrow> hive \<Rightarrow> error + bool" where
  "prevent_block reg h =
     (case getRegistryItemValue (reg h policy_key) ''PreventAddNewServer'' of
        Inr regItemValue \<Rightarrow> Inr (strict_eq regItemValue (Some (JNum 1)))
      | Inl RegistryItemNotFoundException \<Rightarrow> Inr False
      | Inl e \<Rightarrow> Inl e)"

definition isAddingNewServerPreventedByGPO :: "registry \<Rightarrow> error + bool" where
  "isAddingNewServerPreventedByGPO reg =
     (case prevent_block reg HKCU of
        Inl e \<Rightarrow> Inl e
      | Inr True \<Rightarrow> Inr True
      | Inr False \<Rightarrow>
          (case prevent_block reg HKLM of
             Inl e \<Rightarrow> Inl e
           | Inr True \<Rightarrow> Inr True
           | Inr False \<Rightarrow> Inr False))"

text \<open>\<^verbatim>\<open>name.split("|")\<close>: the pieces between the separators, at least one.\<close>

fun split_bar :: "string \<Rightarrow> string list" where
  "split_bar [] = [[]]"
| "split_bar (c # cs) =
     (if c = CHR ''|'' then [] # split_bar cs
      else (case split_bar cs of [] \<Rightarrow> [[c]] | t # ts \<Rightarrow> (c # t) # ts))"

text \<open>\<^verbatim>\<open>typeof xs[k]\<close> for an array of strings.\<close>

definition typeof_at :: "string list \<Rightarrow> nat \<Rightarrow> string" where
  "typeof_at xs k = (if k < length xs then ''string'' else ''undefined'')"

text \<open>
  \<^verbatim>\<open>server.name += t\<close> for each token in turn. \<^verbatim>\<open>server\<close> starts as \<^verbatim>\<open>[]\<close>,
  whose \<^verbatim>\<open>name\<close> is \<^verbatim>\<open>undefined\<close> (\<open>None\<close>), and \<^verbatim>\<open>undefined + t\<close> is the text
  \<^verbatim>\<open>undefined\<close> followed by \<open>t\<close>.
\<close>

fun append_tokens :: "string option \<Rightarrow> string list \<Rightarrow> string option" where
  "append_tokens nm [] = nm"
| "append_tokens None (t # ts) = append_tokens (Some (''undefined'' @ t)) ts"
| "append_tokens (Some s) (t # ts) = append_tokens (Some (s @ t)) ts"

datatype gpo_index = IndexFalse | IndexToken string

record gpo_server =
  server_name :: "string option"
  server_index :: gpo_index
  server_url :: string

text \<open>
  The loop of \<^verbatim>\<open>getDefaultServerListFromGPO\<close>. The inner loops declare
  \<^verbatim>\<open>var i\<close> again, which is the variable of the outer loop: after an inner loop
  \<open>i\<close> is the number of tokens, and \<^verbatim>\<open>registryItems[i].value\<close> reads that entry
  (a \<^verbatim>\<open>TypeError\<close> when there is none).
  \<^verbatim>\<open>
  for (var i = 0; i < registryItems.length; i++) {
    var server = []
    var nameTokenized = registryItems[i].name.split("|");
    if (typeof nameTokenized[0] != "number") {
      for (var i = 0; i < nameTokenized.length; i++) { server.name += nameTokenized[i]; }
      server.index = false;
    } else {
      for (var i = 1; i < nameTokenized.length; i++) { server.name += nameTokenized[i]; }
      server.index = nameTokenized[0];
    }
    server.url = registryItems[i].value;
    servers.push(server);
  }
  return servers;
  \<close>
  The loop need not end, so its result is an option: \<open>None\<close> is running forever.
\<close>

partial_function (option) gpo_loop ::
  "registry_item list \<Rightarrow> nat \<Rightarrow> gpo_server list \<Rightarrow> (error + gpo_server list) option" where
  "gpo_loop registryItems i servers =
     (if i < length registryItems then
        (let nameTokenized = split_bar (item_name (registryItems ! i));
             (nm, idx, j) =
               (if typeof_at nameTokenized 0 \<noteq> ''number''
                then (append_tokens None nameTokenized, IndexFalse,
                      max 0 (length nameTokenized))
                else (append_tokens None (drop 1 nameTokenized),
                      IndexToken (hd nameTokenized),
                      max 1 (length nameTokenized)))
         in if j < length registryItems
            then gpo_loop registryItems (j + 1)
                   (servers @ [\<lparr>server_name = nm, server_index = idx,
                                server_url = item_value (registryItems ! j)\<rparr>])
            else Some (Inl TypeError))
      else Some (Inr servers))"

text \<open>The callback of \<^verbatim>\<open>getDefaultServerListFromGPO\<close>: \<^verbatim>\<open>registryItems = items\<close>.\<close>

definition server_list_callback :: "bool \<Rightarrow> registry_item list \<Rightarrow> error + registry_item list" where
  "server_list_callback err items =
     (if err then Inl RegistryItemNotFoundException else Inr items)"

text \<open>
  \<^verbatim>\<open>getDefaultServerListFromGPO\<close> of \<^verbatim>\<open>settings.js\<close>. Its \<^verbatim>\<open>catch\<close> clause
  binds whatever was thrown and then evaluates \<^verbatim>\<open>new Registry(...)\<close>;
  \<^verbatim>\<open>settings.js\<close> imports the package as \<^verbatim>\<open>WindowsRegistry\<close> and has no
  \<^verbatim>\<open>Registry\<close>, so the clause ends in a \<^verbatim>\<open>ReferenceError\<close>.
\<close>

definition getDefaultServerListFromGPO :: "registry \<Rightarrow> (error + gpo_server list) option" where
  "getDefaultServerListFromGPO reg =
     (case regKey_values (reg HKCU server_list_key) server_list_callback of
        Inl e \<Rightarrow> Some (Inl ReferenceError)
      | Inr assigned \<Rightarrow>
          (let registryItems = (case assigned of Some items \<Rightarrow> items | None \<Rightarrow> [])
           in gpo_loop registryItems 0 []))"

text \<open>
  \<^verbatim>\<open>getDefaultServerListFromGPO\<close> of the other copy of the module
  (\<^verbatim>\<open>src/unnamed/part_000\<close>). That copy imports the package as \<^verbatim>\<open>winreg\<close> and
  writes \<^verbatim>\<open>new Registry(...)\<close> in the \<^verbatim>\<open>try\<close> block and again in the \<^verbatim>\<open>catch\<close>
  clause; no \<^verbatim>\<open>Registry\<close> is declared, so the first throws a \<^verbatim>\<open>ReferenceError\<close>,
  the clause catches it and throws the second, which leaves the function before the
  registry is read.
\<close>

definition getDefaultServerListFromGPO_other_copy :: "registry \<Rightarrow> error + gpo_server list" where
  "getDefaultServerListFromGPO_other_copy reg = Inl ReferenceError"

section \<open>Reading, writing and initialising the configuration\<close>

text \<open>
  What \<^verbatim>\<open>settings.js\<close> takes from outside: the built-in \<^verbatim>\<open>JSON\<close> object, the
  modules \<^verbatim>\<open>./config/defaultPreferences\<close> (an object, given by its properties) and
  \<^verbatim>\<open>./config/upgradePreferences\<close> (a function that may throw), neither of which is
  among the sources, \<^verbatim>\<open>app.getPath('userData')\<close>, \<^verbatim>\<open>process.platform\<close> and the
  registry.
\<close>

record env =
  JSON_parse :: "string \<Rightarrow> json option"  \<comment> \<open>\<open>None\<close> is a \<^verbatim>\<open>SyntaxError\<close>\<close>
  JSON_stringify :: "json \<Rightarrow> string"
  defaultPreferences :: "(string \<times> json) list"
  upgradePreferences :: "json \<Rightarrow> error + json"
  userData :: string
  platform :: string
  policy_store :: registry

text \<open>\<^verbatim>\<open>defaultPreferences.version\<close>\<close>

definition current_version :: "env \<Rightarrow> jsval" where
  "current_version e = map_of (defaultPreferences e) ''version''"

text \<open>\<^verbatim>\<open>o.p\<close> where \<open>o\<close> may be \<^verbatim>\<open>null\<close>.\<close>

definition read_prop :: "json \<Rightarrow> string \<Rightarrow> error + jsval" where
  "read_prop v p = (case v of JNull \<Rightarrow> Inl TypeError | _ \<Rightarrow> Inr (get_prop v p))"

text \<open>
  \<^verbatim>\<open>
  function loadDefault() {
    return JSON.parse(JSON.stringify(defaultPreferences));
  }
  \<close>
\<close>

definition loadDefault :: "env \<Rightarrow> json" where
  "loadDefault e = JObj (defaultPreferences e)"

text \<open>
  \<^verbatim>\<open>
  function upgrade(config) {
    return upgradePreferences(config);
  }
  \<close>
\<close>

definition upgrade :: "env \<Rightarrow> json \<Rightarrow> error + json" where
  "upgrade e config = upgradePreferences e config"

text \<open>
  \<^verbatim>\<open>
  function readFileSync(configFile) {
    const config = JSON.parse(fs.readFileSync(configFile, 'utf8'));
    if (config.version === defaultPreferences.version) {
      const defaultConfig = loadDefault();
      return merge(defaultConfig, config);
    }
    return config;
  }
  \<close>
\<close>

definition readFileSync :: "env \<Rightarrow> string \<Rightarrow> world \<Rightarrow> (error + json) \<times> world" where
  "readFileSync e file w =
     (case fs_readFileSync file w of
        (Inl err, w1) \<Rightarrow> (Inl err, w1)
      | (Inr text, w1) \<Rightarrow>
          (case JSON_parse e text of
             None \<Rightarrow> (Inl SyntaxError, w1)
           | Some config \<Rightarrow>
               (case read_prop config ''version'' of
                  Inl err \<Rightarrow> (Inl err, w1)
                | Inr version \<Rightarrow>
                    if strict_eq version (current_version e)
                    then (Inr (merge (loadDefault e) config), w1)
                    else (Inr config, w1))))"

text \<open>
  \<^verbatim>\<open>
  function writeFile(configFile, config, callback) {
    if (config.version !== defaultPreferences.version) {
      throw new Error('version ' + config.version + ' is not equal to ' + defaultPreferences.version);
    }
    const data = JSON.stringify(config, null, '  ');
    fs.writeFile(configFile, data, 'utf8', callback);
  }
  \<close>
  The result is the write handed to \<^verbatim>\<open>fs.writeFile\<close>, which is carried out later.
\<close>

definition writeFile :: "env \<Rightarrow> string \<Rightarrow> json \<Rightarrow> error + string \<times> string" where
  "writeFile e file config =
     (case read_prop config ''version'' of
        Inl err \<Rightarrow> Inl err
      | Inr version \<Rightarrow>
          if \<not> strict_eq version (current_version e)
          then Inl (VersionError version (current_version e))
          else Inr (file, JSON_stringify e config))"

text \<open>
  \<^verbatim>\<open>
  function writeFileSync(configFile, config) {
    if (config.version !== defaultPreferences.version) {
      throw new Error('version ' + config.version + ' is not equal to ' + defaultPreferences.version);
    }
    const dir = path.dirname(configFile);
    if (!fs.existsSync(dir)) {
      fs.mkdirSync(dir);
    }
    const data = JSON.stringify(config, null, '  ');
    fs.writeFileSync(configFile, data, 'utf8');
  }
  \<close>
  The path is an option because \<open>save\<close> passes the module variable, which is
  \<^verbatim>\<open>undefined\<close> before \<open>init\<close>; \<^verbatim>\<open>path.dirname(undefined)\<close> is a \<^verbatim>\<open>TypeError\<close>.
\<close>

definition writeFileSync ::
  "env \<Rightarrow> fault \<Rightarrow> string option \<Rightarrow> json \<Rightarrow> world \<Rightarrow> (error + unit) \<times> world" where
  "writeFileSync e fault file config w =
     (case read_prop config ''version'' of
        Inl err \<Rightarrow> (Inl err, w)
      | Inr version \<Rightarrow>
          if \<not> strict_eq version (current_version e)
          then (Inl (VersionError version (current_version e)), w)
          else (case file of
                  None \<Rightarrow> (Inl TypeError, w)
                | Some f \<Rightarrow>
                    (let dir = dirname f;
                         (there, w1) = fs_existsSync dir w;
                         (made, w2) = (if \<not> there then fs_mkdirSync fault dir w1
                                       else (Inr (), w1))
                     in case made of
                          Inl err \<Rightarrow> (Inl err, w2)
                        | Inr _ \<Rightarrow>
                            (let data = JSON_stringify e config
                             in fs_writeFileSync fault f data w2))))"

text \<open>
  \<^verbatim>\<open>
  function read() { return readFileSync(configFile); }
  function save(config) { writeFileSync(configFile, config); }
  \<close>
\<close>

definition read :: "env \<Rightarrow> world \<Rightarrow> (error + json) \<times> world" where
  "read e w =
     (case configFile w of
        None \<Rightarrow> (Inl TypeError, w)
      | Some f \<Rightarrow> readFileSync e f w)"

definition save :: "env \<Rightarrow> fault \<Rightarrow> json \<Rightarrow> world \<Rightarrow> (error + unit) \<times> world" where
  "save e fault config w = writeFileSync e fault (configFile w) config w"

text \<open>
  \<^verbatim>\<open>!config.teams.length\<close>: reading \<^verbatim>\<open>length\<close> of \<^verbatim>\<open>undefined\<close> or \<^verbatim>\<open>null\<close>
  throws; an array and a string have a length; an object has the \<^verbatim>\<open>length\<close> it
  was given, if any; a number and a boolean have none, and \<^verbatim>\<open>!undefined\<close> is true.
\<close>

definition no_teams :: "json \<Rightarrow> error + bool" where
  "no_teams config =
     (case get_prop config ''teams'' of
        None \<Rightarrow> Inl TypeError
      | Some JNull \<Rightarrow> Inl TypeError
      | Some (JArr ts) \<Rightarrow> Inr (ts = [])
      | Some (JStr s) \<Rightarrow> Inr (s = [])
      | Some (JObj fs) \<Rightarrow> Inr (\<not> truthy (map_of fs ''length''))
      | Some _ \<Rightarrow> Inr True)"

text \<open>\<^verbatim>\<open>config.teams.push(v)\<close>: only an array has \<^verbatim>\<open>push\<close>.\<close>

definition push_team :: "json \<Rightarrow> json \<Rightarrow> error + json" where
  "push_team config v =
     (case config of
        JObj fs \<Rightarrow>
          (case map_of fs ''teams'' of
             Some (JArr ts) \<Rightarrow> Inr (JObj (set_prop fs ''teams'' (JArr (ts @ [v]))))
           | _ \<Rightarrow> Inl TypeError)
      | _ \<Rightarrow> Inl TypeError)"

text \<open>
  The \<^verbatim>\<open>try\<close> block of \<open>init\<close>; \<open>fault\<close> is what befalls its \<open>writeFileSync\<close>.
  \<^verbatim>\<open>
  config = readFileSync(configFile);
  if (config.version !== defaultPreferences.version) {
    config = upgrade(config);
    writeFileSync(configFile, config);
  }
  \<close>
\<close>

definition init_try :: "env \<Rightarrow> fault \<Rightarrow> string \<Rightarrow> world \<Rightarrow> (error + json) \<times> world" where
  "init_try e fault file w =
     (case readFileSync e file w of
        (Inl err, w1) \<Rightarrow> (Inl err, w1)
      | (Inr config, w1) \<Rightarrow>
          (case read_prop config ''version'' of
             Inl err \<Rightarrow> (Inl err, w1)
           | Inr version \<Rightarrow>
               if \<not> strict_eq version (current_version e)
               then (case upgrade e config of
                       Inl err \<Rightarrow> (Inl err, w1)
                     | Inr upgraded \<Rightarrow>
                         (case writeFileSync e fault (Some file) upgraded w1 of
                            (Inl err, w2) \<Rightarrow> (Inl err, w2)
                          | (Inr _, w2) \<Rightarrow> (Inr upgraded, w2)))
               else (Inr config, w1)))"

text \<open>
  The \<^verbatim>\<open>catch\<close> block of \<open>init\<close>, entered on any exception of the \<^verbatim>\<open>try\<close>
  block; an exception raised here leaves \<open>init\<close>.
  \<^verbatim>\<open>
  config = loadDefault();
  if (!config.teams.length && config.defaultTeam) {
    config.teams.push(config.defaultTeam);
    writeFileSync(configFile, config);
  }
  \<close>
\<close>

definition init_catch :: "env \<Rightarrow> fault \<Rightarrow> string \<Rightarrow> world \<Rightarrow> (error + json) \<times> world" where
  "init_catch e fault file w =
     (let config = loadDefault e
      in case no_teams config of
           Inl err \<Rightarrow> (Inl err, w)
         | Inr noTeams \<Rightarrow>
             if noTeams \<and> truthy (get_prop config ''defaultTeam'')
             then (case get_prop config ''defaultTeam'' of
                     None \<Rightarrow> (Inr config, w)
                   | Some defaultTeam \<Rightarrow>
                       (case push_team config defaultTeam of
                          Inl err \<Rightarrow> (Inl err, w)
                        | Inr seeded \<Rightarrow>
                            (case writeFileSync e fault (Some file) seeded w of
                               (Inl err, w1) \<Rightarrow> (Inl err, w1)
                             | (Inr _, w1) \<Rightarrow> (Inr seeded, w1))))
             else (Inr config, w))"

text \<open>
  The platform step of \<open>init\<close> in \<^verbatim>\<open>settings.js\<close>. The body of the \<^verbatim>\<open>if\<close> is a
  comment, so neither branch reads the registry or touches \<^verbatim>\<open>config.teams\<close>.
  \<^verbatim>\<open>
  if (process.platform == "win32") {
    // If the user cannot have their own servers, overwrite by the ones
    // defined in GPO.
   /* if (isAddingNewServerPreventedByGPO()) { ... config.teams = getDefaultServerListFromGPO(); ... }
      else { ... config.teams = config.teams.concat(getDefaultServerListFromGPO()); ... } */
  }
  \<close>
\<close>

definition platform_step :: "env \<Rightarrow> json \<Rightarrow> json" where
  "platform_step e config = (if platform e = ''win32'' then config else config)"

text \<open>
  The same step in the other copy of the module (\<^verbatim>\<open>src/unnamed/part_000\<close>), where it
  is not a comment:
  \<^verbatim>\<open>
  if (process.platform == "win32") {
    if (isAddingNewServerPrevented()) {
      config.teams = getDefaultServerListFromGPO();
    } else {
      config.teams.push(getDefaultServerListFromGPO());
    }
  }
  \<close>
  That copy declares \<^verbatim>\<open>isAddingNewServerPreventedByGPO\<close> and neither declares nor
  imports an \<^verbatim>\<open>isAddingNewServerPrevented\<close>, so on Windows evaluating the condition
  throws a \<^verbatim>\<open>ReferenceError\<close> and neither branch is reached.
\<close>

definition platform_step_other_copy :: "env \<Rightarrow> json \<Rightarrow> error + json" where
  "platform_step_other_copy e config =
     (if platform e = ''win32'' then Inl ReferenceError else Inr config)"

text \<open>
  \<^verbatim>\<open>
  function init(app) {
    configFile = app.getPath('userData') + '/config.json';
    var config;
    try { ... } catch (e) { ... }
    if (process.platform == "win32") { ... }
    if (config.enableHardwareAcceleration === false) {
      app.disableHardwareAcceleration();
    }
    return config;
  }
  \<close>
  \<open>fault1\<close> is for the write after an upgrade, \<open>fault2\<close> for the write of the seeded
  defaults.
\<close>

definition init :: "env \<Rightarrow> fault \<Rightarrow> fault \<Rightarrow> world \<Rightarrow> (error + json) \<times> world" where
  "init e fault1 fault2 w0 =
     (let file = userData e @ ''/config.json'';
          w = w0\<lparr>configFile := Some file\<rparr>;
          (loaded, w2) = (case init_try e fault1 file w of
                            (Inl err, w1) \<Rightarrow> init_catch e fault2 file w1
                          | (Inr config, w1) \<Rightarrow> (Inr config, w1))
      in case loaded of
           Inl err \<Rightarrow> (Inl err, w2)
         | Inr config \<Rightarrow>
             (let config = platform_step e config
              in case read_prop config ''enableHardwareAcceleration'' of
                   Inl err \<Rightarrow> (Inl err, w2)
                 | Inr flag \<Rightarrow>
                     if strict_eq flag (Some (JBool False))
                     then (Inr config, w2\<lparr>hardwareAccelerationDisabled := True\<rparr>)
                     else (Inr config, w2)))"

text \<open>The \<^verbatim>\<open>teams\<close> of the document \<open>init\<close> returns, when it returns one.\<close>

definition teams_of :: "error + json \<Rightarrow> json list option" where
  "teams_of r =
     (case r of
        Inr config \<Rightarrow> (case get_prop config ''teams'' of Some (JArr ts) \<Rightarrow> Some ts | _ \<Rightarrow> None)
      | Inl _ \<Rightarrow> None)"

section \<open>The upgrade chain of the specification\<close>

text \<open>
  Modelled from the spec: the Upgrade Chain, \<^verbatim>\<open>./config/upgradePreferences\<close>, which
  \<^verbatim>\<open>settings.js\<close> imports and which is not among the sources. The specification
  has it return a document already at the current version as it is, take a document at
  a past version to the current one by the version-to-version migrations in ascending
  order, and fail on any other version. \<open>migration k\<close> takes a document from version
  \<open>k\<close> to version \<open>k + 1\<close>.
\<close>

definition upgradeChain :: "(nat \<Rightarrow> json \<Rightarrow> json) \<Rightarrow> jsval \<Rightarrow> json \<Rightarrow> error + json" where
  "upgradeChain migration current doc =
     (if strict_eq (get_prop doc ''version'') current then Inr doc
      else (case (get_prop doc ''version'', current) of
              (Some (JNum v), Some (JNum c)) \<Rightarrow>
                if 0 \<le> v \<and> v < c then Inr (fold migration [nat v..<nat c] doc)
                else Inl OtherError
            | _ \<Rightarrow> Inl OtherError))"

section \<open>The merge on objects in a store\<close>

text \<open>
  Arrays and objects of JavaScript have an identity. To say what
  \<^verbatim>\<open>mergeDefaultTeams\<close> shares with its arguments, the values live in a store: a list
  of cells, the address of a cell being its position, and a new cell being put at the
  end. A value is a primitive or a reference to a cell.
\<close>

type_synonym addr = nat

datatype val = VNull | VBool bool | VNum int | VStr string | VRef addr

datatype cell = Object "(string \<times> val) list" | Array "val list"

type_synonym store = "cell list"

text \<open>
  The JSON data a value denotes, read by following the references at most \<open>fuel\<close>
  deep; \<open>None\<close> when the fuel runs out or a reference points nowhere.
\<close>

fun reify :: "nat \<Rightarrow> store \<Rightarrow> val \<Rightarrow> json option" where
  "reify fuel st VNull = Some JNull"
| "reify fuel st (VBool b) = Some (JBool b)"
| "reify fuel st (VNum n) = Some (JNum n)"
| "reify fuel st (VStr s) = Some (JStr s)"
| "reify 0 st (VRef a) = None"
| "reify (Suc fuel) st (VRef a) =
     (if a < length st
      then (case st ! a of
              Array vs \<Rightarrow> map_option JArr (those (map (reify fuel st) vs))
            | Object fs \<Rightarrow>
                map_option JObj
                  (those (map (\<lambda>(p, v). map_option (Pair p) (reify fuel st v)) fs)))
      else None)"

text \<open>
  \<^verbatim>\<open>JSON.stringify(v)\<close>, as the data written rather than its text. A chain of
  references that visits no cell twice is at most as long as the store, so with this
  fuel \<open>None\<close> is a circular structure, on which \<^verbatim>\<open>JSON.stringify\<close> throws a
  \<^verbatim>\<open>TypeError\<close>.
\<close>

definition JSON_stringify_store :: "store \<Rightarrow> val \<Rightarrow> json option" where
  "JSON_stringify_store st v = reify (length st) st v"

text \<open>
  \<^verbatim>\<open>JSON.parse\<close> of that data: every array and object of the data becomes a new
  cell, after the cells of its parts.
\<close>

fun alloc :: "json \<Rightarrow> store \<Rightarrow> val \<times> store"
and alloc_list :: "json list \<Rightarrow> store \<Rightarrow> val list \<times> store"
and alloc_fields :: "(string \<times> json) list \<Rightarrow> store \<Rightarrow> (string \<times> val) list \<times> store" where
  "alloc JNull st = (VNull, st)"
| "alloc (JBool b) st = (VBool b, st)"
| "alloc (JNum n) st = (VNum n, st)"
| "alloc (JStr s) st = (VStr s, st)"
| "alloc (JArr xs) st =
     (case alloc_list xs st of (vs, st1) \<Rightarrow> (VRef (length st1), st1 @ [Array vs]))"
| "alloc (JObj fs) st =
     (case alloc_fields fs st of (gs, st1) \<Rightarrow> (VRef (length st1), st1 @ [Object gs]))"
| "alloc_list [] st = ([], st)"
| "alloc_list (x # xs) st =
     (case alloc x st of (v, st1) \<Rightarrow>
        (case alloc_list xs st1 of (vs, st2) \<Rightarrow> (v # vs, st2)))"
| "alloc_fields [] st = ([], st)"
| "alloc_fields ((p, x) # fs) st =
     (case alloc x st of (v, st1) \<Rightarrow>
        (case alloc_fields fs st1 of (gs, st2) \<Rightarrow> ((p, v) # gs, st2)))"

text \<open>
  \<^verbatim>\<open>config.defaultTeams.length > 0\<close>: an array and a string have a length, an object
  the \<^verbatim>\<open>length\<close> it was given (only a number is considered), \<^verbatim>\<open>null\<close> throws.
\<close>

definition has_elements :: "store \<Rightarrow> val \<Rightarrow> error + bool" where
  "has_elements st v =
     (case v of
        VNull \<Rightarrow> Inl TypeError
      | VStr s \<Rightarrow> Inr (length s > 0)
      | VRef a \<Rightarrow>
          (if a < length st
           then (case st ! a of
                   Array vs \<Rightarrow> Inr (length vs > 0)
                 | Object fs \<Rightarrow>
                     Inr (case map_of fs ''length'' of Some (VNum n) \<Rightarrow> n > 0 | _ \<Rightarrow> False))
           else Inl ReferenceError)
      | _ \<Rightarrow> Inr False)"

text \<open>
  The elements \<^verbatim>\<open>...v\<close> spreads: those of an array, the characters of a string;
  anything else is not iterable.
\<close>

definition spread :: "store \<Rightarrow> val \<Rightarrow> error + val list" where
  "spread st v =
     (case v of
        VStr s \<Rightarrow> Inr (map (\<lambda>c. VStr [c]) s)
      | VRef a \<Rightarrow>
          (if a < length st
           then (case st ! a of Array vs \<Rightarrow> Inr vs | Object fs \<Rightarrow> Inl TypeError)
           else Inl ReferenceError)
      | _ \<Rightarrow> Inl TypeError)"

text \<open>\<^verbatim>\<open>newServers.push(v1, ..., vn)\<close> on the array at an address.\<close>

definition push_all :: "addr \<Rightarrow> val list \<Rightarrow> store \<Rightarrow> store" where
  "push_all a vs st =
     (case st ! a of Array old \<Rightarrow> st[a := Array (old @ vs)] | Object fs \<Rightarrow> st)"

text \<open>\<^verbatim>\<open>newServers.push(...JSON.parse(JSON.stringify(x)))\<close>\<close>

definition copy_into :: "addr \<Rightarrow> val \<Rightarrow> store \<Rightarrow> (error + unit) \<times> store" where
  "copy_into newServers x st =
     (case JSON_stringify_store st x of
        None \<Rightarrow> (Inl TypeError, st)
      | Some written \<Rightarrow>
          (case alloc written st of
             (parsed, st1) \<Rightarrow>
               (case spread st1 parsed of
                  Inl err \<Rightarrow> (Inl err, st1)
                | Inr vs \<Rightarrow> (Inr (), push_all newServers vs st1))))"

text \<open>
  \<^verbatim>\<open>mergeDefaultTeams\<close> again, now on the store: \<open>defaults\<close> is the value of
  \<^verbatim>\<open>buildConfig.defaultTeams\<close>, \<open>enabled\<close> the truthiness of
  \<^verbatim>\<open>buildConfig.enableServerManagement\<close>, \<open>servers\<close> the argument. The result is
  the reference to \<^verbatim>\<open>newServers\<close> and the store after the call.
\<close>

definition mergeDefaultTeams_store ::
  "val \<Rightarrow> bool \<Rightarrow> val \<Rightarrow> store \<Rightarrow> (error + val) \<times> store" where
  "mergeDefaultTeams_store defaults enabled servers st =
     (let newServers = length st;
          st0 = st @ [Array []]
      in case has_elements st0 defaults of
           Inl err \<Rightarrow> (Inl err, st0)
         | Inr has \<Rightarrow>
             (case (if has then copy_into newServers defaults st0 else (Inr (), st0)) of
                (Inl err, st1) \<Rightarrow> (Inl err, st1)
              | (Inr u, st1) \<Rightarrow>
                  (case (if enabled then copy_into newServers servers st1 else (Inr (), st1)) of
                     (Inl err, st2) \<Rightarrow> (Inl err, st2)
                   | (Inr u, st2) \<Rightarrow> (Inr (VRef newServers), st2))))"

text \<open>
  A value is new from \<open>lo\<close> when it is a primitive or refers to a cell at \<open>lo\<close> or
  above; a store is fresh from \<open>lo\<close> when the cells at \<open>lo\<close> and above hold only
  such values, so that no chain of references leads from them below \<open>lo\<close>.
\<close>

fun is_new :: "addr \<Rightarrow> val \<Rightarrow> bool" where
  "is_new lo (VRef a) = (lo \<le> a)"
| "is_new lo _ = True"

fun cell_new :: "addr \<Rightarrow> cell \<Rightarrow> bool" where
  "cell_new lo (Array vs) = list_all (is_new lo) vs"
| "cell_new lo (Object fs) = list_all (\<lambda>(p, v). is_new lo v) fs"

definition fresh_from :: "addr \<Rightarrow> store \<Rightarrow> bool" where
  "fresh_from lo st = list_all (cell_new lo) (drop lo st)"

text \<open>
  What holds of the store while \<open>mergeDefaultTeams_store\<close> runs: the cells of the
  caller are as they were, and the new array at \<open>n0\<close> holds copies that denote \<open>js\<close>.
\<close>

definition copied :: "addr \<Rightarrow> store \<Rightarrow> store \<Rightarrow> json list \<Rightarrow> bool" where
  "copied n0 st s js \<longleftrightarrow>
     take n0 s = st \<and> n0 < length s \<and> fresh_from (Suc n0) s
     \<and> (\<exists>vs. s ! n0 = Array vs \<and> list_all (is_new (Suc n0)) vs
              \<and> (\<forall>k \<ge> length s - 1. those (map (reify k s) vs) = Some js))"

text \<open>
  A store with a vendor default list at address 1 and a list of the user at address 3,
  each with one team.
\<close>

definition example_store :: store where
  "example_store =
     [Object [(''url'', VStr ''a'')],
      Array [VRef 0],
      Object [(''url'', VStr ''a''), (''name'', VStr ''mine'')],
      Array [VRef 2]]"

section \<open>A concrete installation\<close>

text \<open>
  The instances of the theorems below run the functions on this installation: a Windows
  host whose defaults are at version 1 and name a default team, whose upgrade takes a
  version 0 document to version 1, and whose \<^verbatim>\<open>JSON\<close> object knows the texts of the
  three documents that occur (written here without line breaks and indentation).
\<close>

definition example_dir :: string where
  "example_dir = ''/home/u/.config/Mattermost''"

definition example_file :: string where
  "example_file = ''/home/u/.config/Mattermost/config.json''"

definition example_doc :: json where
  "example_doc =
     JObj [(''version'', JNum 1),
           (''teams'', JArr [JObj [(''name'', JStr ''mine''), (''url'', JStr ''a'')]])]"

definition example_text :: string where
  \<open>example_text = ''{"version":1,"teams":[{"name":"mine","url":"a"}]}''\<close>

definition stale_doc :: json where
  "stale_doc = JObj [(''version'', JNum 0), (''teams'', JArr [])]"

definition stale_text :: string where
  \<open>stale_text = ''{"version":0,"teams":[]}''\<close>

definition seeded_doc :: json where
  "seeded_doc =
     JObj [(''version'', JNum 1), (''teams'', JArr [JStr ''https://seed'']),
           (''defaultTeam'', JStr ''https://seed'')]"

definition seeded_text :: string where
  \<open>seeded_text = ''{"version":1,"teams":["https://seed"],"defaultTeam":"https://seed"}''\<close>

definition example_migration :: "nat \<Rightarrow> json \<Rightarrow> json" where
  "example_migration k doc =
     (case doc of JObj fs \<Rightarrow> JObj (set_prop fs ''version'' (JNum (int k + 1))) | _ \<Rightarrow> doc)"

definition example_registry :: registry where
  "example_registry h key =
     (if h = HKCU \<and> key = policy_key
      then ValuesItems [\<lparr>item_name = ''PreventAddNewServer'', item_value = ''1''\<rparr>]
      else if h = HKCU \<and> key = server_list_key
      then ValuesItems [\<lparr>item_name = ''p'', item_value = ''https://p''\<rparr>,
                        \<lparr>item_name = ''q'', item_value = ''https://q''\<rparr>]
      else ValuesError)"

definition example_env :: env where
  "example_env =
     \<lparr>JSON_parse = (\<lambda>t. if t = example_text then Some example_doc
                          else if t = stale_text then Some stale_doc else None),
      JSON_stringify = (\<lambda>j. if j = example_doc then example_text
                              else if j = seeded_doc then seeded_text else ''null''),
      defaultPreferences = [(''version'', JNum 1), (''teams'', JArr []),
                            (''defaultTeam'', JStr ''https://seed'')],
      upgradePreferences = upgradeChain example_migration (Some (JNum 1)),
      userData = example_dir,
      platform = ''win32'',
      policy_store = example_registry\<rparr>"

text \<open>A first run: the directory of the configuration file does not exist yet.\<close>

definition fresh_world :: world where
  "fresh_world =
     \<lparr>dirs = {''/'', ''/home'', ''/home/u'', ''/home/u/.config''},
      files = Map.empty,
      unreadable = {},
      calls = [],
      configFile = None,
      hardwareAccelerationDisabled = False\<rparr>"

text \<open>A later run: \<open>init\<close> has set the module variable and the file holds a document.\<close>

definition settled_world :: world where
  "settled_world =
     \<lparr>dirs = {''/'', ''/home'', ''/home/u'', ''/home/u/.config'', example_dir},
      files = [example_file \<mapsto> example_text],
      unreadable = {},
      calls = [],
      configFile = Some example_file,
      hardwareAccelerationDisabled = False\<rparr>"

text \<open>
  The policy store of the specification's example: two servers with an order index in
  their names, listed out of order.
\<close>

definition ordered_registry :: registry where
  "ordered_registry h key =
     (if h = HKCU \<and> key = server_list_key
      then ValuesItems [\<lparr>item_name = ''2|Beta'', item_value = ''https://b''\<rparr>,
                        \<lparr>item_name = ''1|Alpha'', item_value = ''https://a''\<rparr>]
      else ValuesError)"

text \<open>A policy store with three servers whose names have no separator.\<close>

definition three_servers :: "registry_item list" where
  "three_servers =
     [\<lparr>item_name = ''a'', item_value = ''https://a''\<rparr>,
      \<lparr>item_name = ''b'', item_value = ''https://b''\<rparr>,
      \<lparr>item_name = ''c'', item_value = ''https://c''\<rparr>]"

definition plain_registry :: registry where
  "plain_registry h key =
     (if h = HKCU \<and> key = server_list_key then ValuesItems three_servers else ValuesError)"

text \<open>A registry whose package calls back only after \<^verbatim>\<open>values\<close> has returned.\<close>

definition deferred_registry :: registry where
  "deferred_registry h key = ValuesDeferred"

section \<open>Properties of the merge\<close>

lemma mergeDefaultTeams_eq:
  "mergeDefaultTeams bc servers =
     defaultTeams bc @ (if enableServerManagement bc then servers else [])"
  by (simp add: mergeDefaultTeams_def hasBuildConfigDefaultTeams_def deepCopy_def)

text \<open>
  Claim C7. With server management disabled the merge returns exactly the vendor
  defaults, in their configured order, and none of the user's entries; with it
  enabled the user's teams follow the vendor defaults, in their stored order.
\<close>

theorem C7_server_management_lock:
  "mergeDefaultTeams (bc\<lparr>enableServerManagement := False\<rparr>) servers = defaultTeams bc
   \<and> mergeDefaultTeams (bc\<lparr>enableServerManagement := True\<rparr>) servers
       = defaultTeams bc @ servers"
  by (simp add: mergeDefaultTeams_eq)

theorem C7_server_management_lock_witness:
  "mergeDefaultTeams \<lparr>defaultTeams = [JObj [(''url'', JStr ''a'')]],
                      enableServerManagement = False\<rparr>
       [JObj [(''url'', JStr ''a''), (''name'', JStr ''mine'')]]
     = [JObj [(''url'', JStr ''a'')]]
   \<and> mergeDefaultTeams \<lparr>defaultTeams = [JObj [(''url'', JStr ''a'')]],
                        enableServerManagement = True\<rparr>
       [JObj [(''url'', JStr ''b'')], JObj [(''url'', JStr ''c'')]]
     = [JObj [(''url'', JStr ''a'')], JObj [(''url'', JStr ''b'')],
        JObj [(''url'', JStr ''c'')]]"
  using C7_server_management_lock
    [of "\<lparr>defaultTeams = [JObj [(''url'', JStr ''a'')]], enableServerManagement = False\<rparr>"
        "[JObj [(''url'', JStr ''a''), (''name'', JStr ''mine'')]]"]
    C7_server_management_lock
    [of "\<lparr>defaultTeams = [JObj [(''url'', JStr ''a'')]], enableServerManagement = True\<rparr>"
        "[JObj [(''url'', JStr ''b'')], JObj [(''url'', JStr ''c'')]]"]
  by simp

text \<open>
  Claim C1, as stated: with server management enabled the merged list has at most one
  entry per url, and where a vendor default and a user team share a url the single
  entry is the user's. The merge only concatenates, so on the specification's own
  example both entries for url \<open>a\<close> are returned, the vendor default first.
\<close>

theorem C1_dedup_counterexample:
  "\<not> (length (with_url ''a''
         (mergeDefaultTeams
            \<lparr>defaultTeams = [JObj [(''url'', JStr ''a'')]], enableServerManagement = True\<rparr>
            [JObj [(''url'', JStr ''a''), (''name'', JStr ''mine'')]])) \<le> 1)
   \<and> mergeDefaultTeams
        \<lparr>defaultTeams = [JObj [(''url'', JStr ''a'')]], enableServerManagement = True\<rparr>
        [JObj [(''url'', JStr ''a''), (''name'', JStr ''mine'')]]
      = [JObj [(''url'', JStr ''a'')],
         JObj [(''url'', JStr ''a''), (''name'', JStr ''mine'')]]"
  by (simp add: mergeDefaultTeams_eq with_url_def team_url_def)

text \<open>
  Claim C1, amended. With server management enabled nothing is deduplicated: for
  every url the merged list holds all vendor defaults with that url followed by all
  user teams with that url, so the number of entries for a url is the sum of the two
  counts, and every user entry (with its display name) is in the result.
\<close>

theorem C1_merge_keeps_every_entry:
  "with_url u (mergeDefaultTeams (bc\<lparr>enableServerManagement := True\<rparr>) servers)
     = with_url u (defaultTeams bc) @ with_url u servers
   \<and> length (with_url u (mergeDefaultTeams (bc\<lparr>enableServerManagement := True\<rparr>) servers))
     = length (with_url u (defaultTeams bc)) + length (with_url u servers)
   \<and> set servers \<subseteq> set (mergeDefaultTeams (bc\<lparr>enableServerManagement := True\<rparr>) servers)"
  by (simp add: mergeDefaultTeams_eq with_url_def)

theorem C1_merge_keeps_every_entry_witness:
  "with_url ''a''
     (mergeDefaultTeams
        \<lparr>defaultTeams = [JObj [(''url'', JStr ''a'')]], enableServerManagement = True\<rparr>
        [JObj [(''url'', JStr ''a''), (''name'', JStr ''mine'')]])
   = [JObj [(''url'', JStr ''a'')], JObj [(''url'', JStr ''a''), (''name'', JStr ''mine'')]]"
  using C1_merge_keeps_every_entry
    [of "''a''"
        "\<lparr>defaultTeams = [JObj [(''url'', JStr ''a'')]], enableServerManagement = True\<rparr>"
        "[JObj [(''url'', JStr ''a''), (''name'', JStr ''mine'')]]"]
  by (simp add: with_url_def team_url_def)

section \<open>Properties of saving\<close>

lemma read_prop_object: "config \<noteq> JNull \<Longrightarrow> read_prop config p = Inr (get_prop config p)"
  by (cases config) (simp_all add: read_prop_def)

lemma writeFileSync_rejects:
  assumes "\<not> strict_eq (get_prop config ''version'') (current_version e)"
  shows "writeFileSync e fault file config w =
           (Inl (if config = JNull then TypeError
                 else VersionError (get_prop config ''version'') (current_version e)), w)"
  using assms by (cases config; simp add: writeFileSync_def read_prop_def)

lemma writeFileSync_not_VersionError:
  assumes "strict_eq (get_prop config ''version'') (current_version e)"
  shows "fst (writeFileSync e fault file config w) \<noteq> Inl (VersionError a b)"
  using assms
  by (cases config)
     (auto simp: writeFileSync_def read_prop_def fs_existsSync_def fs_mkdirSync_def
                 fs_writeFileSync_def Let_def
           split: option.splits fault.splits)

lemma writeFileSync_calls:
  assumes "config \<noteq> JNull" "strict_eq (get_prop config ''version'') (current_version e)"
  shows "\<exists>cs. calls (snd (writeFileSync e fault (Some f) config w))
               = calls w @ FsExistsSync (dirname f) # cs"
  using assms
  by (auto simp: writeFileSync_def read_prop_object fs_existsSync_def fs_mkdirSync_def
                 fs_writeFileSync_def Let_def
           split: fault.splits)


lemma writeFileSync_ok_files:
  assumes "writeFileSync e fault (Some f) config w = (Inr u, w')"
  shows "files w' = (files w)(f \<mapsto> JSON_stringify e config)"
  using assms
  apply (simp add: writeFileSync_def Let_def split: sum.splits prod.splits if_splits)
  apply (auto simp: fs_existsSync_def fs_mkdirSync_def fs_writeFileSync_def Let_def
              split: fault.splits if_splits)
  done


text \<open>
  Claim C6. A document whose version is not the current one is rejected by \<open>save\<close>
  before anything else happens: the world after the call is the world before it (no
  file, no directory, not even a call on the file system), and \<open>writeFile\<close> hands
  nothing to write either. For a document at the current version the guard does not
  fire: the result is never the version error, and once \<open>init\<close> has set the path,
  \<open>save\<close> goes on to look for the directory.
\<close>

theorem C6_save_rejects_other_versions:
  "(\<not> strict_eq (get_prop config ''version'') (current_version e) \<longrightarrow>
      save e fault config w =
        (Inl (if config = JNull then TypeError
              else VersionError (get_prop config ''version'') (current_version e)), w)
      \<and> isl (writeFile e file config))
   \<and> (config \<noteq> JNull \<and> strict_eq (get_prop config ''version'') (current_version e) \<longrightarrow>
        (\<forall>a b. fst (save e fault config w) \<noteq> Inl (VersionError a b))
        \<and> (\<forall>f. configFile w = Some f \<longrightarrow>
              (\<exists>cs. calls (snd (save e fault config w))
                     = calls w @ FsExistsSync (dirname f) # cs))
        \<and> writeFile e file config = Inr (file, JSON_stringify e config))"
proof (intro conjI impI allI)
  assume stale: "\<not> strict_eq (get_prop config ''version'') (current_version e)"
  show "save e fault config w =
          (Inl (if config = JNull then TypeError
                else VersionError (get_prop config ''version'') (current_version e)), w)"
    unfolding save_def using stale by (rule writeFileSync_rejects)
  show "isl (writeFile e file config)"
    using stale by (cases config) (simp_all add: writeFile_def read_prop_def)
next
  fix a b
  assume "config \<noteq> JNull \<and> strict_eq (get_prop config ''version'') (current_version e)"
  then show "fst (save e fault config w) \<noteq> Inl (VersionError a b)"
    unfolding save_def by (simp add: writeFileSync_not_VersionError)
next
  fix f
  assume "config \<noteq> JNull \<and> strict_eq (get_prop config ''version'') (current_version e)"
     and "configFile w = Some f"
  then show "\<exists>cs. calls (snd (save e fault config w)) = calls w @ FsExistsSync (dirname f) # cs"
    unfolding save_def by (simp add: writeFileSync_calls)
next
  assume "config \<noteq> JNull \<and> strict_eq (get_prop config ''version'') (current_version e)"
  then show "writeFile e file config = Inr (file, JSON_stringify e config)"
    by (simp add: writeFile_def read_prop_object)
qed

lemmas example_defs =
  example_env_def example_doc_def example_text_def stale_doc_def stale_text_def
  seeded_doc_def seeded_text_def example_dir_def example_file_def settled_world_def
  fresh_world_def current_version_def

lemma dirname_example_file:
  "dirname ''/home/u/.config/Mattermost/config.json'' = ''/home/u/.config/Mattermost''"
  by (simp add: dirname_def)

lemma dirname_example_dir: "dirname ''/home/u/.config/Mattermost'' = ''/home/u/.config''"
  by (simp add: dirname_def)

theorem C6_save_rejects_other_versions_witness:
  "\<not> strict_eq (get_prop stale_doc ''version'') (current_version example_env)
   \<and> save example_env NoFault stale_doc settled_world
       = (Inl (VersionError (Some (JNum 0)) (Some (JNum 1))), settled_world)
   \<and> example_doc \<noteq> JNull
   \<and> strict_eq (get_prop example_doc ''version'') (current_version example_env)
   \<and> configFile settled_world = Some example_file
   \<and> fst (save example_env NoFault example_doc settled_world) = Inr ()"
  using C6_save_rejects_other_versions
          [of stale_doc example_env NoFault settled_world example_file]
        C6_save_rejects_other_versions
          [of example_doc example_env NoFault settled_world example_file]
  by (simp add: example_defs save_def writeFileSync_def read_prop_def fs_existsSync_def
                fs_writeFileSync_def Let_def dirname_example_file)




section \<open>Properties of initialisation\<close>

lemma map_of_set_prop: "map_of (set_prop fs q v) p = (if p = q then Some v else map_of fs p)"
  by (induction fs q v rule: set_prop.induct) auto

lemma map_of_fold_set_prop:
  "distinct (map fst kvs) \<Longrightarrow>
   map_of (fold (\<lambda>(p, v) fs. set_prop fs p v) kvs acc) p =
     (case map_of kvs p of Some v \<Rightarrow> Some v | None \<Rightarrow> map_of acc p)"
proof (induction kvs arbitrary: acc)
  case Nil
  then show ?case by simp
next
  case (Cons kv kvs)
  obtain k v where kv: "kv = (k, v)" by (cases kv)
  from Cons.prems kv have "map_of kvs k = None"
    by (auto simp: map_of_eq_None_iff)
  with Cons kv show ?case
    by (auto simp: map_of_set_prop split: option.splits)
qed

lemma scan_dirname_shorter: "scan_dirname xs m = Some cs \<Longrightarrow> length cs < length xs"
  by (induction xs m rule: scan_dirname.induct) (auto split: if_splits)

lemma dirname_length: "length (dirname p) < length p \<or> length (dirname p) \<le> 2"
  by (auto simp: dirname_def split: list.splits option.splits dest: scan_dirname_shorter)

lemma dirname_config_file: "dirname (d @ ''/config.json'') \<noteq> d @ ''/config.json''"
  using dirname_length [of "d @ ''/config.json''"] by auto

lemma readFileSync_fails:
  assumes "files w file = None \<or> file \<in> unreadable w
           \<or> (\<exists>t. files w file = Some t \<and> JSON_parse e t = None)"
  shows "\<exists>err. readFileSync e file w = (Inl err, w\<lparr>calls := calls w @ [FsReadFileSync file]\<rparr>)"
  using assms
  by (auto simp: readFileSync_def fs_readFileSync_def Let_def split: option.splits)

lemma init_try_read_fails:
  assumes "files w file = None \<or> file \<in> unreadable w
           \<or> (\<exists>t. files w file = Some t \<and> JSON_parse e t = None)"
  shows "\<exists>err. init_try e fault file w = (Inl err, w\<lparr>calls := calls w @ [FsReadFileSync file]\<rparr>)"
  using readFileSync_fails [OF assms] by (auto simp: init_try_def)

lemma writeFileSync_succeeds:
  assumes "config \<noteq> JNull"
      and "strict_eq (get_prop config ''version'') (current_version e)"
      and "f \<notin> dirs w" "dirname f \<noteq> f"
      and "dirname f \<in> dirs w \<or> (files w (dirname f) = None \<and> dirname (dirname f) \<in> dirs w)"
  shows "fst (writeFileSync e NoFault (Some f) config w) = Inr ()"
  using assms
  by (auto simp: writeFileSync_def read_prop_object fs_existsSync_def fs_mkdirSync_def
                 fs_writeFileSync_def Let_def)

lemma init_catch_seeds:
  assumes "map_of (defaultPreferences e) ''teams'' = Some (JArr [])"
      and "map_of (defaultPreferences e) ''defaultTeam'' = Some dt"
      and "truthy (Some dt)"
  shows "init_catch e fault file w =
           (case writeFileSync e fault (Some file)
                   (JObj (set_prop (defaultPreferences e) ''teams'' (JArr [dt]))) w of
              (Inl err, w1) \<Rightarrow> (Inl err, w1)
            | (Inr u, w1) \<Rightarrow>
                (Inr (JObj (set_prop (defaultPreferences e) ''teams'' (JArr [dt]))), w1))"
  using assms
  by (simp add: init_catch_def loadDefault_def no_teams_def push_team_def)

lemma init_after_failed_read:
  assumes "files w (userData e @ ''/config.json'') = None
           \<or> userData e @ ''/config.json'' \<in> unreadable w
           \<or> (\<exists>t. files w (userData e @ ''/config.json'') = Some t \<and> JSON_parse e t = None)"
      and "map_of (defaultPreferences e) ''teams'' = Some (JArr [])"
      and "map_of (defaultPreferences e) ''defaultTeam'' = Some dt"
      and "truthy (Some dt)"
  shows "init e fault1 fault2 w =
          (case writeFileSync e fault2 (Some (userData e @ ''/config.json''))
                  (JObj (set_prop (defaultPreferences e) ''teams'' (JArr [dt])))
                  (w\<lparr>configFile := Some (userData e @ ''/config.json''),
                     calls := calls w @ [FsReadFileSync (userData e @ ''/config.json'')]\<rparr>) of
             (Inl err, w1) \<Rightarrow> (Inl err, w1)
           | (Inr u, w1) \<Rightarrow>
               (Inr (JObj (set_prop (defaultPreferences e) ''teams'' (JArr [dt]))),
                if strict_eq (map_of (set_prop (defaultPreferences e) ''teams'' (JArr [dt]))
                                ''enableHardwareAcceleration'') (Some (JBool False))
                then w1\<lparr>hardwareAccelerationDisabled := True\<rparr> else w1))"
proof -
  let ?file = "userData e @ ''/config.json''"
  let ?w = "w\<lparr>configFile := Some ?file\<rparr>"
  have "files ?w ?file = None \<or> ?file \<in> unreadable ?w
        \<or> (\<exists>t. files ?w ?file = Some t \<and> JSON_parse e t = None)"
    using assms(1) by simp
  from init_try_read_fails [OF this, of fault1]
  obtain err where tried: "init_try e fault1 ?file ?w
      = (Inl err, ?w\<lparr>calls := calls ?w @ [FsReadFileSync ?file]\<rparr>)"
    by blast
  show ?thesis
    by (simp add: init_def Let_def tried init_catch_seeds [OF assms(2,3,4)] platform_step_def
                  read_prop_def
             split: prod.splits sum.splits)
qed

lemma map_of_fold_set_prop_None:
  "map_of kvs p = None \<Longrightarrow>
   map_of (fold (\<lambda>(p, v) fs. set_prop fs p v) kvs acc) p = map_of acc p"
  by (induction kvs arbitrary: acc) (auto simp: map_of_set_prop split: if_splits)

lemma get_prop_merge_Some:
  assumes "distinct (map fst fs)" "map_of fs p = Some v"
  shows "get_prop (merge base (JObj fs)) p = Some v"
  using assms by (simp add: merge_def object_assign_def map_of_fold_set_prop)

lemma get_prop_merge_None:
  assumes "map_of fs p = None" "map_of dp p = None"
  shows "get_prop (merge (JObj dp) (JObj fs)) p = None"
  using assms by (simp add: merge_def object_assign_def map_of_fold_set_prop_None)

lemma strict_eq_None: "strict_eq None v \<longleftrightarrow> v = None"
  by (cases v) simp_all

lemma merged_version:
  assumes "distinct (map fst fs)"
      and "strict_eq (map_of fs ''version'') (current_version e)"
  shows "strict_eq (get_prop (merge (loadDefault e) (JObj fs)) ''version'') (current_version e)"
proof (cases "map_of fs ''version''")
  case None
  with assms(2) have "map_of (defaultPreferences e) ''version'' = None"
    by (simp add: strict_eq_None current_version_def)
  with None show ?thesis
    by (simp add: loadDefault_def get_prop_merge_None current_version_def)
next
  case (Some v)
  with assms show ?thesis
    by (simp add: get_prop_merge_Some)
qed

lemma init_current_document:
  assumes "files w (userData e @ ''/config.json'') = Some text"
      and "userData e @ ''/config.json'' \<notin> unreadable w"
      and "JSON_parse e text = Some (JObj fs)"
      and "distinct (map fst fs)"
      and "strict_eq (map_of fs ''version'') (current_version e)"
  shows "init e fault1 fault2 w =
           (Inr (merge (loadDefault e) (JObj fs)),
            (if strict_eq (get_prop (merge (loadDefault e) (JObj fs)) ''enableHardwareAcceleration'')
                  (Some (JBool False))
             then (\<lambda>x. x\<lparr>hardwareAccelerationDisabled := True\<rparr>) else (\<lambda>x. x))
              (w\<lparr>configFile := Some (userData e @ ''/config.json''),
                 calls := calls w @ [FsReadFileSync (userData e @ ''/config.json'')]\<rparr>))"
proof -
  let ?file = "userData e @ ''/config.json''"
  let ?w = "w\<lparr>configFile := Some ?file\<rparr>"
  let ?m = "merge (loadDefault e) (JObj fs)"
  have m: "?m \<noteq> JNull" by (simp add: merge_def)
  have rd: "readFileSync e ?file ?w = (Inr ?m, ?w\<lparr>calls := calls ?w @ [FsReadFileSync ?file]\<rparr>)"
    using assms by (simp add: readFileSync_def fs_readFileSync_def Let_def read_prop_def)
  have tr: "init_try e fault1 ?file ?w = (Inr ?m, ?w\<lparr>calls := calls ?w @ [FsReadFileSync ?file]\<rparr>)"
    using merged_version [OF assms(4,5)]
    by (simp add: init_try_def rd read_prop_object [OF m])
  show ?thesis
    by (simp add: init_def Let_def tr platform_step_def read_prop_object [OF m])
qed

text \<open>
  \<open>init\<close> of \<^verbatim>\<open>settings.js\<close> reads neither the platform nor the registry: its
  result is the same for every platform and every content of the policy store.
\<close>

lemma writeFileSync_ignores_policy:
  "writeFileSync (e\<lparr>platform := p, policy_store := r\<rparr>) = writeFileSync e"
  by (intro ext)
     (simp add: writeFileSync_def current_version_def Let_def
          cong: sum.case_cong option.case_cong prod.case_cong if_cong)

lemma readFileSync_ignores_policy:
  "readFileSync (e\<lparr>platform := p, policy_store := r\<rparr>) = readFileSync e"
  by (intro ext)
     (simp add: readFileSync_def current_version_def loadDefault_def
          cong: sum.case_cong option.case_cong prod.case_cong if_cong)

lemma init_try_ignores_policy:
  "init_try (e\<lparr>platform := p, policy_store := r\<rparr>) = init_try e"
  by (intro ext)
     (simp add: init_try_def readFileSync_ignores_policy writeFileSync_ignores_policy
                current_version_def upgrade_def
          cong: sum.case_cong option.case_cong prod.case_cong if_cong)

lemma init_catch_ignores_policy:
  "init_catch (e\<lparr>platform := p, policy_store := r\<rparr>) = init_catch e"
  by (intro ext)
     (simp add: init_catch_def writeFileSync_ignores_policy loadDefault_def Let_def
          cong: sum.case_cong option.case_cong prod.case_cong if_cong)

lemma init_ignores_policy:
  "init (e\<lparr>platform := p, policy_store := r\<rparr>) fault1 fault2 w
     = init (e\<lparr>platform := p', policy_store := r'\<rparr>) fault1 fault2 w"
  by (simp add: init_def init_try_ignores_policy init_catch_ignores_policy platform_step_def
                Let_def
          cong: sum.case_cong option.case_cong prod.case_cong if_cong)

lemmas run_defs =
  init_def init_try_def init_catch_def readFileSync_def fs_readFileSync_def writeFileSync_def
  fs_existsSync_def fs_mkdirSync_def fs_writeFileSync_def read_prop_def no_teams_def
  push_team_def loadDefault_def upgrade_def platform_step_def save_def Let_def
  dirname_example_file dirname_example_dir

text \<open>
  Claim C5, as stated: when the load falls back to the defaults, the defaults have no
  teams and a default team is set, \<open>init\<close> returns a document with exactly one team
  whose url is the default team's URL, and has written it to disk. \<open>init\<close> pushes
  the value of \<^verbatim>\<open>defaultTeam\<close> itself. With the string the specification gives for
  it, the only entry of \<^verbatim>\<open>teams\<close> is that string, which has no \<^verbatim>\<open>url\<close>; and
  when the write fails, \<open>init\<close> ends in the exception and returns no document.
\<close>

theorem C5_seeded_team_counterexample:
  "fst (init example_env NoFault NoFault fresh_world) = Inr seeded_doc
   \<and> get_prop seeded_doc ''teams'' = Some (JArr [JStr ''https://seed''])
   \<and> team_url (JStr ''https://seed'') = None
   \<and> with_url ''https://seed'' [JStr ''https://seed''] = []
   \<and> fst (init example_env NoFault OpenFails fresh_world) = Inl (FsError ''EACCES'')"
  by (simp add: run_defs example_defs team_url_def with_url_def)

text \<open>
  Claim C5, amended. When the configuration file is absent, unreadable or not JSON, the
  defaults have an empty \<^verbatim>\<open>teams\<close> and \<^verbatim>\<open>defaultTeam\<close> is set, every document
  \<open>init\<close> returns has a \<^verbatim>\<open>teams\<close> list whose only entry is the value of
  \<^verbatim>\<open>defaultTeam\<close> as it is, and that document is the text of the configuration
  file when \<open>init\<close> returns. \<open>init\<close> does return one when the version of the defaults
  is a primitive value or absent, the path of the file is not a directory, the
  directory of the file exists or can be made in an existing parent, and the write
  does not fail.
\<close>

theorem C5_first_run_seeds_default_team:
  assumes "files w (userData e @ ''/config.json'') = None
           \<or> userData e @ ''/config.json'' \<in> unreadable w
           \<or> (\<exists>t. files w (userData e @ ''/config.json'') = Some t \<and> JSON_parse e t = None)"
      and "map_of (defaultPreferences e) ''teams'' = Some (JArr [])"
      and "map_of (defaultPreferences e) ''defaultTeam'' = Some dt"
      and "truthy (Some dt)"
  shows "(\<forall>config w'. init e fault1 fault2 w = (Inr config, w') \<longrightarrow>
            teams_of (Inr config) = Some [dt]
            \<and> files w' = (files w)(userData e @ ''/config.json'' \<mapsto> JSON_stringify e config))
         \<and> (strict_eq (current_version e) (current_version e)
             \<and> userData e @ ''/config.json'' \<notin> dirs w
             \<and> (dirname (userData e @ ''/config.json'') \<in> dirs w
                 \<or> files w (dirname (userData e @ ''/config.json'')) = None
                   \<and> dirname (dirname (userData e @ ''/config.json'')) \<in> dirs w)
             \<longrightarrow> (\<exists>config w'. init e fault1 NoFault w = (Inr config, w')))"
proof -
  let ?file = "userData e @ ''/config.json''"
  let ?seeded = "JObj (set_prop (defaultPreferences e) ''teams'' (JArr [dt]))"
  let ?w = "w\<lparr>configFile := Some ?file, calls := calls w @ [FsReadFileSync ?file]\<rparr>"
  note run = init_after_failed_read [OF assms, of fault1]
  have returned: "teams_of (Inr config) = Some [dt]
          \<and> files w' = (files w)(?file \<mapsto> JSON_stringify e config)"
    if ret: "init e fault1 fault2 w = (Inr config, w')" for config w'
  proof -
    obtain r w1 where wr: "writeFileSync e fault2 (Some ?file) ?seeded ?w = (r, w1)"
      by (cases "writeFileSync e fault2 (Some ?file) ?seeded ?w")
    from ret run [of fault2] wr obtain u where ok: "r = Inr u"
      and config: "config = ?seeded" and files: "files w' = files w1"
      by (cases r) (auto split: if_splits)
    from writeFileSync_ok_files [OF wr [unfolded ok]]
    have "files w1 = (files w)(?file \<mapsto> JSON_stringify e ?seeded)"
      by simp
    with config files show ?thesis
      by (simp add: teams_of_def map_of_set_prop)
  qed
  have returns: "\<exists>config w'. init e fault1 NoFault w = (Inr config, w')"
    if ok: "strict_eq (current_version e) (current_version e)
             \<and> ?file \<notin> dirs w
             \<and> (dirname ?file \<in> dirs w
                 \<or> files w (dirname ?file) = None \<and> dirname (dirname ?file) \<in> dirs w)"
  proof -
    have "fst (writeFileSync e NoFault (Some ?file) ?seeded ?w) = Inr ()"
      using ok
      by (intro writeFileSync_succeeds)
         (auto simp: map_of_set_prop current_version_def dirname_config_file)
    then show ?thesis
      using run [of NoFault]
      by (cases "writeFileSync e NoFault (Some ?file) ?seeded ?w") auto
  qed
  show ?thesis
    using returned returns by blast
qed

theorem C5_first_run_seeds_default_team_witness:
  "files fresh_world (userData example_env @ ''/config.json'') = None
   \<and> map_of (defaultPreferences example_env) ''teams'' = Some (JArr [])
   \<and> map_of (defaultPreferences example_env) ''defaultTeam'' = Some (JStr ''https://seed'')
   \<and> truthy (Some (JStr ''https://seed''))
   \<and> strict_eq (current_version example_env) (current_version example_env)
   \<and> userData example_env @ ''/config.json'' \<notin> dirs fresh_world
   \<and> files fresh_world (dirname (userData example_env @ ''/config.json'')) = None
   \<and> dirname (dirname (userData example_env @ ''/config.json'')) \<in> dirs fresh_world
   \<and> init example_env NoFault NoFault fresh_world
      = (Inr seeded_doc, snd (init example_env NoFault NoFault fresh_world))
   \<and> teams_of (Inr seeded_doc) = Some [JStr ''https://seed'']
   \<and> files (snd (init example_env NoFault NoFault fresh_world))
      = [example_file \<mapsto> seeded_text]"
proof -
  have a: "files fresh_world (userData example_env @ ''/config.json'') = None
           \<or> userData example_env @ ''/config.json'' \<in> unreadable fresh_world
           \<or> (\<exists>t. files fresh_world (userData example_env @ ''/config.json'') = Some t
                    \<and> JSON_parse example_env t = None)"
    by (simp add: example_defs)
  have b: "map_of (defaultPreferences example_env) ''teams'' = Some (JArr [])"
    by (simp add: example_defs)
  have c: "map_of (defaultPreferences example_env) ''defaultTeam'' = Some (JStr ''https://seed'')"
    by (simp add: example_defs)
  have d: "truthy (Some (JStr ''https://seed''))"
    by simp
  have run: "init example_env NoFault NoFault fresh_world
      = (Inr seeded_doc, snd (init example_env NoFault NoFault fresh_world))"
    by (simp add: run_defs example_defs)
  from C5_first_run_seeds_default_team [OF a b c d, of NoFault NoFault] run
  have "teams_of (Inr seeded_doc) = Some [JStr ''https://seed'']
        \<and> files (snd (init example_env NoFault NoFault fresh_world))
            = (files fresh_world)(userData example_env @ ''/config.json''
                 \<mapsto> JSON_stringify example_env seeded_doc)"
    by blast
  then show ?thesis
    using run by (simp add: example_defs dirname_example_file dirname_example_dir)
qed

text \<open>
  Claim C8. A document at the current version is returned by the upgrade chain as it
  is, and the load path does not hand such a document to the upgrade at all: whatever
  the upgrade function is, \<open>init\<close> returns the defaults overlaid with the document
  read (every property of the document keeps its value), reads the file once and
  writes nothing.
\<close>

theorem C8_current_document_is_not_upgraded:
  assumes "files w (userData e @ ''/config.json'') = Some content"
      and "userData e @ ''/config.json'' \<notin> unreadable w"
      and "JSON_parse e content = Some (JObj fs)"
      and "distinct (map fst fs)"
      and "strict_eq (map_of fs ''version'') (current_version e)"
  shows "upgradeChain migration (current_version e) (JObj fs) = Inr (JObj fs)
         \<and> (\<forall>u. fst (init (e\<lparr>upgradePreferences := u\<rparr>) fault1 fault2 w)
                  = Inr (merge (loadDefault e) (JObj fs))
                \<and> files (snd (init (e\<lparr>upgradePreferences := u\<rparr>) fault1 fault2 w)) = files w
                \<and> calls (snd (init (e\<lparr>upgradePreferences := u\<rparr>) fault1 fault2 w))
                  = calls w @ [FsReadFileSync (userData e @ ''/config.json'')])
         \<and> (\<forall>p v. map_of fs p = Some v
                \<longrightarrow> get_prop (merge (loadDefault e) (JObj fs)) p = Some v)"
proof -
  have chain: "upgradeChain migration (current_version e) (JObj fs) = Inr (JObj fs)"
    using assms(5) by (simp add: upgradeChain_def)
  have load: "fst (init (e\<lparr>upgradePreferences := u\<rparr>) fault1 fault2 w)
                  = Inr (merge (loadDefault e) (JObj fs))
                \<and> files (snd (init (e\<lparr>upgradePreferences := u\<rparr>) fault1 fault2 w)) = files w
                \<and> calls (snd (init (e\<lparr>upgradePreferences := u\<rparr>) fault1 fault2 w))
                  = calls w @ [FsReadFileSync (userData e @ ''/config.json'')]" for u
    using init_current_document [of w "e\<lparr>upgradePreferences := u\<rparr>" content fs fault1 fault2]
          assms
    by (simp add: current_version_def loadDefault_def)
  have kept: "get_prop (merge (loadDefault e) (JObj fs)) p = Some v"
    if "map_of fs p = Some v" for p v
    using assms(4) that by (rule get_prop_merge_Some)
  show ?thesis
    using chain load kept by blast
qed

theorem C8_current_document_is_not_upgraded_witness:
  "files settled_world (userData example_env @ ''/config.json'') = Some example_text
   \<and> userData example_env @ ''/config.json'' \<notin> unreadable settled_world
   \<and> JSON_parse example_env example_text = Some example_doc
   \<and> distinct (map fst [(''version'', JNum 1),
                          (''teams'', JArr [JObj [(''name'', JStr ''mine''),
                                                  (''url'', JStr ''a'')]])])
   \<and> strict_eq (get_prop example_doc ''version'') (current_version example_env)
   \<and> upgradeChain example_migration (current_version example_env) example_doc
       = Inr example_doc
   \<and> fst (init example_env NoFault NoFault settled_world)
       = Inr (JObj [(''version'', JNum 1),
                    (''teams'', JArr [JObj [(''name'', JStr ''mine''), (''url'', JStr ''a'')]]),
                    (''defaultTeam'', JStr ''https://seed'')])
   \<and> files (snd (init example_env NoFault NoFault settled_world)) = files settled_world
   \<and> calls (snd (init example_env NoFault NoFault settled_world))
       = [FsReadFileSync example_file]"
  using C8_current_document_is_not_upgraded
          [where w = settled_world and e = example_env and content = example_text
             and fs = "[(''version'', JNum 1),
                        (''teams'', JArr [JObj [(''name'', JStr ''mine''),
                                                (''url'', JStr ''a'')]])]"
             and migration = example_migration and ?fault1.0 = NoFault
             and ?fault2.0 = NoFault]
  by (simp add: run_defs example_defs merge_def object_assign_def)

text \<open>
  Claim C2. On the platform with a policy store \<open>init\<close> is to replace the teams by
  the policy's server list when adding servers is prevented, and to append the
  policy's servers one by one otherwise. The code sets out to do so and does not get
  there. Here the host is Windows, the file holds a document with one team, and the
  registry has \<^verbatim>\<open>PreventAddNewServer\<close> set to 1 and two servers in its list. In
  \<^verbatim>\<open>settings.js\<close> the comment above the step says that the list of the policy is
  to overwrite the teams, but the body of the step is a comment: \<open>init\<close> returns the
  team of the file and nothing of the policy, while
  \<open>isAddingNewServerPreventedByGPO\<close> answers false and
  \<open>getDefaultServerListFromGPO\<close> has a server to give. In the other copy the step
  is live and ends in a \<^verbatim>\<open>ReferenceError\<close>.
\<close>

theorem C2_policy_composition_is_missing:
  "platform example_env = ''win32''
   \<and> isAddingNewServerPreventedByGPO (policy_store example_env) = Inr False
   \<and> getDefaultServerListFromGPO (policy_store example_env)
       = Some (Inr [\<lparr>server_name = Some ''undefinedp'', server_index = IndexFalse,
                     server_url = ''https://q''\<rparr>])
   \<and> teams_of (fst (init example_env NoFault NoFault settled_world))
       = Some [JObj [(''name'', JStr ''mine''), (''url'', JStr ''a'')]]
   \<and> platform_step_other_copy example_env example_doc = Inl ReferenceError"
  by (simp add: run_defs example_defs teams_of_def merge_def object_assign_def
                platform_step_other_copy_def isAddingNewServerPreventedByGPO_def
                prevent_block_def getRegistryItemValue_def
                regKey_values_def item_callback_def example_registry_def
                getDefaultServerListFromGPO_def server_list_callback_def gpo_loop.simps
                typeof_at_def policy_key_def server_list_key_def)

section \<open>Properties of the policy store lookups\<close>

lemma getRegistryItemValue_undefined:
  "getRegistryItemValue regKey item = Inr v \<Longrightarrow> v = None"
  by (simp add: getRegistryItemValue_def split: sum.splits)

lemma prevent_block_not_true: "prevent_block reg h \<noteq> Inr True"
proof (cases "getRegistryItemValue (reg h policy_key) ''PreventAddNewServer''")
  case (Inl err)
  then show ?thesis
    by (cases err) (simp_all add: prevent_block_def)
next
  case (Inr v)
  then have "v = None"
    by (rule getRegistryItemValue_undefined)
  with Inr show ?thesis
    by (simp add: prevent_block_def)
qed

text \<open>
  Claim C9. \<open>getRegistryItemValue\<close> never returns anything but \<^verbatim>\<open>undefined\<close>: the
  value its callback finds stays in the callback. So the comparison with 1 in
  \<open>isAddingNewServerPreventedByGPO\<close> never holds, and that function returns false
  whenever it returns.
\<close>

theorem C9_registry_value_is_never_returned:
  "(\<forall>v. getRegistryItemValue regKey item = Inr v \<longrightarrow> v = None)
   \<and> (\<forall>found. item_callback item False items = Inr found
         \<longrightarrow> getRegistryItemValue (ValuesItems items) item = Inr None)
   \<and> (\<forall>v. getRegistryItemValue regKey item = Inr v \<longrightarrow> \<not> strict_eq v (Some (JNum 1)))
   \<and> (\<forall>b. isAddingNewServerPreventedByGPO reg = Inr b \<longrightarrow> b = False)"
proof (intro conjI allI impI)
  fix v
  assume "getRegistryItemValue regKey item = Inr v"
  then show "v = None"
    by (rule getRegistryItemValue_undefined)
next
  fix found
  assume "item_callback item False items = Inr found"
  then show "getRegistryItemValue (ValuesItems items) item = Inr None"
    by (simp add: getRegistryItemValue_def regKey_values_def)
next
  fix v
  assume "getRegistryItemValue regKey item = Inr v"
  then have "v = None"
    by (rule getRegistryItemValue_undefined)
  then show "\<not> strict_eq v (Some (JNum 1))"
    by simp
next
  fix b
  assume "isAddingNewServerPreventedByGPO reg = Inr b"
  then show "b = False"
    using prevent_block_not_true [of reg HKCU] prevent_block_not_true [of reg HKLM]
    by (auto simp: isAddingNewServerPreventedByGPO_def split: sum.splits bool.splits)
qed

theorem C9_registry_value_is_never_returned_witness:
  "item_callback ''PreventAddNewServer'' False
       [\<lparr>item_name = ''PreventAddNewServer'', item_value = ''1''\<rparr>]
     = Inr (Some (JStr ''1''))
   \<and> getRegistryItemValue (example_registry HKCU policy_key) ''PreventAddNewServer''
     = Inr None
   \<and> isAddingNewServerPreventedByGPO example_registry = Inr False"
  using C9_registry_value_is_never_returned
          [of "example_registry HKCU policy_key" "''PreventAddNewServer''"
              "[\<lparr>item_name = ''PreventAddNewServer'', item_value = ''1''\<rparr>]"
              example_registry]
  by (simp add: isAddingNewServerPreventedByGPO_def prevent_block_def getRegistryItemValue_def
                regKey_values_def item_callback_def example_registry_def policy_key_def
                server_list_key_def)

text \<open>With three names without a separator the loop comes back to the third entry for ever.\<close>

lemma gpo_loop_three_servers_no_result:
  assumes "gpo_loop rs i servers = Some y"
  shows "rs = three_servers \<and> i = Suc (Suc 0) \<longrightarrow> False"
proof (rule gpo_loop.raw_induct
         [where P = "\<lambda>rs i servers y. rs = three_servers \<and> i = Suc (Suc 0) \<longrightarrow> False",
          OF _ assms])
  fix f :: "registry_item list \<Rightarrow> nat \<Rightarrow> gpo_server list \<Rightarrow> (error + gpo_server list) option"
  fix rs i servers y
  assume IH: "\<And>rs i servers y.
                f rs i servers = Some y \<Longrightarrow> rs = three_servers \<and> i = Suc (Suc 0) \<longrightarrow> False"
  assume step: "(if i < length rs then
        (let nameTokenized = split_bar (item_name (rs ! i));
             (nm, idx, j) =
               (if typeof_at nameTokenized 0 \<noteq> ''number''
                then (append_tokens None nameTokenized, IndexFalse,
                      max 0 (length nameTokenized))
                else (append_tokens None (drop 1 nameTokenized),
                      IndexToken (hd nameTokenized),
                      max 1 (length nameTokenized)))
         in if j < length rs
            then f rs (j + 1)
                   (servers @ [\<lparr>server_name = nm, server_index = idx,
                                server_url = item_value (rs ! j)\<rparr>])
            else Some (Inl TypeError))
      else Some (Inr servers)) = Some y"
  show "rs = three_servers \<and> i = Suc (Suc 0) \<longrightarrow> False"
  proof
    assume at: "rs = three_servers \<and> i = Suc (Suc 0)"
    with step have "f three_servers (Suc (Suc 0))
         (servers @ [\<lparr>server_name = Some ''undefinedc'', server_index = IndexFalse,
                       server_url = ''https://b''\<rparr>]) = Some y"
      by (simp add: three_servers_def typeof_at_def)
    from IH [OF this] show False by simp
  qed
qed

lemma gpo_loop_three_servers: "gpo_loop three_servers (Suc (Suc 0)) servers = None"
  using gpo_loop_three_servers_no_result [of three_servers "Suc (Suc 0)" servers]
  by (cases "gpo_loop three_servers (Suc (Suc 0)) servers") auto

text \<open>
  The index branch of the loop is dead and the name starts from \<^verbatim>\<open>undefined\<close>:
  whatever the entries are, a server the loop adds has no index and a name that begins
  with the text \<^verbatim>\<open>undefined\<close>.
\<close>

lemma split_bar_not_empty: "split_bar s \<noteq> []"
  by (induction s) (auto split: list.splits)

lemma append_tokens_Some: "append_tokens (Some s) ts = Some (s @ concat ts)"
  by (induction ts arbitrary: s) auto

lemma append_tokens_None:
  "ts \<noteq> [] \<Longrightarrow> append_tokens None ts = Some (''undefined'' @ concat ts)"
  by (cases ts) (simp_all add: append_tokens_Some)

lemma gpo_loop_never_decodes:
  assumes "gpo_loop items i servers = Some y"
  shows "\<forall>result. y = Inr result \<longrightarrow>
           (\<exists>new. result = servers @ new
                  \<and> (\<forall>s \<in> set new. server_index s = IndexFalse
                        \<and> (\<exists>rest. server_name s = Some (''undefined'' @ rest))))"
proof (rule gpo_loop.raw_induct
         [where P = "\<lambda>items i servers y. \<forall>result. y = Inr result \<longrightarrow>
           (\<exists>new. result = servers @ new
                  \<and> (\<forall>s \<in> set new. server_index s = IndexFalse
                        \<and> (\<exists>rest. server_name s = Some (''undefined'' @ rest))))",
          OF _ assms])
  fix f :: "registry_item list \<Rightarrow> nat \<Rightarrow> gpo_server list \<Rightarrow> (error + gpo_server list) option"
  fix items i servers y
  assume IH: "\<And>items i servers y. f items i servers = Some y \<Longrightarrow>
         \<forall>result. y = Inr result \<longrightarrow>
           (\<exists>new. result = servers @ new
                  \<and> (\<forall>s \<in> set new. server_index s = IndexFalse
                        \<and> (\<exists>rest. server_name s = Some (''undefined'' @ rest))))"
  assume step: "(if i < length items then
        (let nameTokenized = split_bar (item_name (items ! i));
             (nm, idx, j) =
               (if typeof_at nameTokenized 0 \<noteq> ''number''
                then (append_tokens None nameTokenized, IndexFalse,
                      max 0 (length nameTokenized))
                else (append_tokens None (drop 1 nameTokenized),
                      IndexToken (hd nameTokenized),
                      max 1 (length nameTokenized)))
         in if j < length items
            then f items (j + 1)
                   (servers @ [\<lparr>server_name = nm, server_index = idx,
                                server_url = item_value (items ! j)\<rparr>])
            else Some (Inl TypeError))
      else Some (Inr servers)) = Some y"
  show "\<forall>result. y = Inr result \<longrightarrow>
           (\<exists>new. result = servers @ new
                  \<and> (\<forall>s \<in> set new. server_index s = IndexFalse
                        \<and> (\<exists>rest. server_name s = Some (''undefined'' @ rest))))"
  proof (intro allI impI)
    fix result
    assume y: "y = Inr result"
    show "\<exists>new. result = servers @ new
                  \<and> (\<forall>s \<in> set new. server_index s = IndexFalse
                        \<and> (\<exists>rest. server_name s = Some (''undefined'' @ rest)))"
    proof (cases "i < length items")
      case False
      with step y show ?thesis by simp
    next
      case True
      let ?ts = "split_bar (item_name (items ! i))"
      let ?s = "\<lparr>server_name = append_tokens None ?ts,
                  server_index = IndexFalse, server_url = item_value (items ! length ?ts)\<rparr>"
      from step True y have rec: "f items (length ?ts + 1) (servers @ [?s]) = Some y"
        by (auto simp: typeof_at_def Let_def split: if_splits)
      from IH [OF rec] y obtain new where new: "result = (servers @ [?s]) @ new"
          "\<forall>s \<in> set new. server_index s = IndexFalse
                \<and> (\<exists>rest. server_name s = Some (''undefined'' @ rest))"
        by blast
      have "server_index ?s = IndexFalse
            \<and> (\<exists>rest. server_name ?s = Some (''undefined'' @ rest))"
        by (simp add: append_tokens_None split_bar_not_empty)
      with new show ?thesis
        by (intro exI [of _ "?s # new"]) auto
    qed
  qed
qed

lemma getDefaultServerListFromGPO_never_decodes:
  assumes "getDefaultServerListFromGPO reg = Some (Inr result)"
      and "s \<in> set result"
  shows "server_index s = IndexFalse \<and> (\<exists>rest. server_name s = Some (''undefined'' @ rest))"
proof (cases "regKey_values (reg HKCU server_list_key) server_list_callback")
  case (Inl err)
  with assms(1) show ?thesis
    by (simp add: getDefaultServerListFromGPO_def)
next
  case (Inr assigned)
  with assms(1) have "gpo_loop (case assigned of Some items \<Rightarrow> items | None \<Rightarrow> []) 0 []
                        = Some (Inr result)"
    by (simp add: getDefaultServerListFromGPO_def)
  from gpo_loop_never_decodes [OF this] assms(2) show ?thesis
    by auto
qed

text \<open>
  Claim C4. Every policy entry named \<^verbatim>\<open>"<integer>|<rest>"\<close> is to become a server
  with that order index, the rest as its name and the entry's value as its url, and the
  list is to come back sorted by index. \<open>getDefaultServerListFromGPO\<close> sets out to
  decode the names and does not get there. On the two entries of the specification's
  example, \<^verbatim>\<open>2|Beta\<close> and \<^verbatim>\<open>1|Alpha\<close>, it ends in a \<^verbatim>\<open>TypeError\<close>; of two
  entries without a separator it returns one server, named \<^verbatim>\<open>undefinedp\<close>,
  without index and with the url of the other entry; on three such entries it does
  not return; when the registry package calls back after \<^verbatim>\<open>values\<close> has returned,
  the list is empty whatever the key holds; and the other copy ends in a
  \<^verbatim>\<open>ReferenceError\<close> on every registry.
\<close>

theorem C4_server_list_is_not_decoded:
  "getDefaultServerListFromGPO ordered_registry = Some (Inl TypeError)
   \<and> getDefaultServerListFromGPO example_registry
       = Some (Inr [\<lparr>server_name = Some ''undefinedp'', server_index = IndexFalse,
                     server_url = ''https://q''\<rparr>])
   \<and> getDefaultServerListFromGPO plain_registry = None
   \<and> getDefaultServerListFromGPO deferred_registry = Some (Inr [])
   \<and> getDefaultServerListFromGPO_other_copy ordered_registry = Inl ReferenceError"
proof (intro conjI)
  show "getDefaultServerListFromGPO ordered_registry = Some (Inl TypeError)"
    by (simp add: getDefaultServerListFromGPO_def ordered_registry_def regKey_values_def
                  server_list_callback_def gpo_loop.simps typeof_at_def)
  show "getDefaultServerListFromGPO example_registry
       = Some (Inr [\<lparr>server_name = Some ''undefinedp'', server_index = IndexFalse,
                     server_url = ''https://q''\<rparr>])"
    by (simp add: getDefaultServerListFromGPO_def example_registry_def regKey_values_def
                  server_list_callback_def gpo_loop.simps typeof_at_def policy_key_def
                  server_list_key_def)
  have "gpo_loop three_servers 0 [] = None"
    by (subst gpo_loop.simps)
       (simp add: three_servers_def typeof_at_def gpo_loop_three_servers [unfolded three_servers_def])
  then show "getDefaultServerListFromGPO plain_registry = None"
    by (simp add: getDefaultServerListFromGPO_def plain_registry_def regKey_values_def
                  server_list_callback_def)
  show "getDefaultServerListFromGPO deferred_registry = Some (Inr [])"
    by (simp add: getDefaultServerListFromGPO_def deferred_registry_def regKey_values_def
                  gpo_loop.simps)
  show "getDefaultServerListFromGPO_other_copy ordered_registry = Inl ReferenceError"
    by (simp add: getDefaultServerListFromGPO_other_copy_def)
qed

section \<open>Properties of the merge in the store\<close>
lemma alloc_extends:
  "alloc j st = (v, st') \<Longrightarrow> \<exists>ext. st' = st @ ext"
  "alloc_list js st = (vs, st') \<Longrightarrow> \<exists>ext. st' = st @ ext"
  "alloc_fields fs st = (gs, st') \<Longrightarrow> \<exists>ext. st' = st @ ext"
proof (induction j st and js st and fs st arbitrary: v st' and vs st' and gs st'
       rule: alloc_alloc_list_alloc_fields.induct)
  case (5 xs st)
  then show ?case by (auto split: prod.splits)
next
  case (6 fs st)
  then show ?case by (auto split: prod.splits)
next
  case (8 x xs st)
  then show ?case by (fastforce split: prod.splits)
next
  case (10 p x fs st)
  then show ?case by (fastforce split: prod.splits)
qed auto

lemma fresh_from_append:
  "lo \<le> length st \<Longrightarrow> fresh_from lo (st @ ext) \<longleftrightarrow> fresh_from lo st \<and> list_all (cell_new lo) ext"
  by (simp add: fresh_from_def)

lemma alloc_fresh:
  "alloc j st = (v, st') \<Longrightarrow> lo \<le> length st \<Longrightarrow> fresh_from lo st
     \<Longrightarrow> fresh_from lo st' \<and> is_new lo v"
  "alloc_list js st = (vs, st') \<Longrightarrow> lo \<le> length st \<Longrightarrow> fresh_from lo st
     \<Longrightarrow> fresh_from lo st' \<and> list_all (is_new lo) vs"
  "alloc_fields fs st = (gs, st') \<Longrightarrow> lo \<le> length st \<Longrightarrow> fresh_from lo st
     \<Longrightarrow> fresh_from lo st' \<and> list_all (\<lambda>(p, v). is_new lo v) gs"
proof (induction j st and js st and fs st arbitrary: v st' and vs st' and gs st'
       rule: alloc_alloc_list_alloc_fields.induct)
  case (5 xs st)
  obtain vs st1 where a: "alloc_list xs st = (vs, st1)" by (cases "alloc_list xs st")
  with 5 have "fresh_from lo st1 \<and> list_all (is_new lo) vs" by blast
  moreover from alloc_extends(2) [OF a] 5 have "lo \<le> length st1" by auto
  ultimately show ?case using 5 a by (auto simp: fresh_from_append)
next
  case (6 fs st)
  obtain gs st1 where a: "alloc_fields fs st = (gs, st1)" by (cases "alloc_fields fs st")
  with 6 have "fresh_from lo st1 \<and> list_all (\<lambda>(p, v). is_new lo v) gs" by blast
  moreover from alloc_extends(3) [OF a] 6 have "lo \<le> length st1" by auto
  ultimately show ?case using 6 a by (auto simp: fresh_from_append)
next
  case (8 x xs st)
  obtain v1 st1 where a: "alloc x st = (v1, st1)" by (cases "alloc x st")
  obtain vs2 st2 where b: "alloc_list xs st1 = (vs2, st2)" by (cases "alloc_list xs st1")
  from 8 a have 1: "fresh_from lo st1 \<and> is_new lo v1" by blast
  from alloc_extends(1) [OF a] 8 have 2: "lo \<le> length st1" by auto
  from "8.IH"(2) [OF a [symmetric] b 2] 1 have "fresh_from lo st2 \<and> list_all (is_new lo) vs2" by blast
  with 1 8 a b show ?case by auto
next
  case (10 p x fs st)
  obtain v1 st1 where a: "alloc x st = (v1, st1)" by (cases "alloc x st")
  obtain gs2 st2 where b: "alloc_fields fs st1 = (gs2, st2)" by (cases "alloc_fields fs st1")
  from 10 a have 1: "fresh_from lo st1 \<and> is_new lo v1" by blast
  from alloc_extends(1) [OF a] 10 have 2: "lo \<le> length st1" by auto
  from "10.IH"(2) [OF a [symmetric] b 2] 1 have "fresh_from lo st2 \<and> list_all (\<lambda>(p, v). is_new lo v) gs2" by blast
  with 1 10 a b show ?case by auto
qed auto

lemma fresh_from_nth:
  assumes "fresh_from lo st" "lo \<le> a" "a < length st"
  shows "cell_new lo (st ! a)"
proof -
  have "st ! a = drop lo st ! (a - lo)" using assms by simp
  moreover have "a - lo < length (drop lo st)" using assms by simp
  ultimately have "st ! a \<in> set (drop lo st)" by (metis nth_mem)
  with assms(1) show ?thesis by (simp add: fresh_from_def list_all_iff)
qed

lemma fresh_from_update:
  assumes "fresh_from lo st" "cell_new lo c"
  shows "fresh_from lo (st[n := c])"
proof -
  have "set (drop lo (st[n := c])) \<subseteq> insert c (set (drop lo st))"
  proof (cases "lo \<le> n")
    case True
    then show ?thesis
      by (simp add: drop_update_swap set_update_subset_insert)
  next
    case False
    then show ?thesis by (auto simp: drop_update_cancel)
  qed
  with assms show ?thesis
    by (auto simp: fresh_from_def list_all_iff)
qed

lemma spread_fresh:
  assumes "spread st v = Inr vs" "fresh_from lo st" "is_new lo v"
  shows "list_all (is_new lo) vs"
proof (cases v)
  case (VStr s)
  with assms(1) show ?thesis by (auto simp: spread_def list_all_iff)
next
  case (VRef a)
  with assms(1) have a: "a < length st" "st ! a = Array vs"
    by (auto simp: spread_def split: if_splits cell.splits)
  from VRef assms(3) have "lo \<le> a" by simp
  from fresh_from_nth [OF assms(2) this a(1)] a(2) show ?thesis by simp
qed (use assms(1) in \<open>simp_all add: spread_def\<close>)

lemma push_all_frame:
  "lo \<le> n \<Longrightarrow> take lo (push_all n vs st) = take lo st"
  "length (push_all n vs st) = length st"
  by (simp_all add: push_all_def split: cell.splits)

lemma push_all_fresh:
  assumes "fresh_from lo st" "list_all (is_new lo) vs" "lo \<le> n" "n < length st"
  shows "fresh_from lo (push_all n vs st)"
proof (cases "st ! n")
  case (Object fs)
  with assms(1) show ?thesis by (simp add: push_all_def)
next
  case (Array old)
  from fresh_from_nth [OF assms(1,3,4)] Array have "list_all (is_new lo) old" by simp
  with assms(2) have "cell_new lo (Array (old @ vs))" by simp
  from fresh_from_update [OF assms(1) this] Array show ?thesis
    by (simp add: push_all_def)
qed

lemma copy_into_frame:
  assumes "copy_into n x st = (r, st')" "lo \<le> n" "n < length st"
  shows "take lo st' = take lo st \<and> length st \<le> length st'"
proof (cases "JSON_stringify_store st x")
  case None
  with assms show ?thesis by (simp add: copy_into_def)
next
  case (Some j)
  obtain v st1 where a: "alloc j st = (v, st1)" by (cases "alloc j st")
  from alloc_extends(1) [OF a] obtain ext where ext: "st1 = st @ ext" by blast
  with assms(2,3) have 1: "take lo st1 = take lo st" "length st \<le> length st1" by auto
  show ?thesis
  proof (cases "spread st1 v")
    case (Inl err)
    with assms(1) Some a 1 show ?thesis by (simp add: copy_into_def)
  next
    case (Inr vs)
    with assms(1) Some a have "st' = push_all n vs st1" by (simp add: copy_into_def)
    with 1 assms(2) show ?thesis by (simp add: push_all_frame)
  qed
qed

lemma copy_into_fresh:
  assumes "copy_into n x st = (r, st')" "lo \<le> n" "n < length st" "fresh_from lo st"
  shows "fresh_from lo st'"
proof (cases "JSON_stringify_store st x")
  case None
  with assms show ?thesis by (simp add: copy_into_def)
next
  case (Some j)
  obtain v st1 where a: "alloc j st = (v, st1)" by (cases "alloc j st")
  from assms(2,3) have lo: "lo \<le> length st" by simp
  from alloc_fresh(1) [OF a lo assms(4)] have 1: "fresh_from lo st1" "is_new lo v" by auto
  from alloc_extends(1) [OF a] assms(3) have 2: "n < length st1" by auto
  show ?thesis
  proof (cases "spread st1 v")
    case (Inl err)
    with assms(1) Some a 1 show ?thesis by (simp add: copy_into_def)
  next
    case (Inr vs)
    with assms(1) Some a have "st' = push_all n vs st1" by (simp add: copy_into_def)
    with push_all_fresh [OF 1(1) spread_fresh [OF Inr 1] assms(2) 2] show ?thesis by simp
  qed
qed

lemma mergeDefaultTeams_store_frame:
  assumes "mergeDefaultTeams_store defaults enabled servers st = (r, st')"
  shows "take (length st) st' = st \<and> fresh_from (length st) st'
         \<and> (\<forall>v. r = Inr v \<longrightarrow> v = VRef (length st) \<and> length st < length st')"
proof -
  let ?n = "length st"
  let ?st0 = "st @ [Array []]"
  have f0: "fresh_from ?n ?st0" by (simp add: fresh_from_def)
  have step: "take ?n s' = st \<and> fresh_from ?n s' \<and> ?n < length s'"
    if "copy_into ?n x s = (q, s')" "take ?n s = st" "fresh_from ?n s" "?n < length s"
    for x s q s'
    using copy_into_frame [OF that(1) order_refl that(4)]
          copy_into_fresh [OF that(1) order_refl that(4) that(3)] that
    by auto
  obtain q1 st1 where one: "(if (case has_elements ?st0 defaults of Inr h \<Rightarrow> h | Inl e \<Rightarrow> False)
                            then copy_into ?n defaults ?st0 else (Inr (), ?st0)) = (q1, st1)"
    by (cases "(if (case has_elements ?st0 defaults of Inr h \<Rightarrow> h | Inl e \<Rightarrow> False)
                then copy_into ?n defaults ?st0 else (Inr (), ?st0))")
  have s1: "take ?n st1 = st \<and> fresh_from ?n st1 \<and> ?n < length st1"
    using one f0 step [of defaults ?st0 q1 st1] by (auto split: if_splits)
  obtain q2 st2 where two: "(if enabled then copy_into ?n servers st1 else (Inr (), st1)) = (q2, st2)"
    by (cases "(if enabled then copy_into ?n servers st1 else (Inr (), st1))")
  have s2: "take ?n st2 = st \<and> fresh_from ?n st2 \<and> ?n < length st2"
    using two s1 step [of servers st1 q2 st2] by (auto split: if_splits)
  show ?thesis
    using assms one two s1 s2 f0
    by (auto simp: mergeDefaultTeams_store_def Let_def split: sum.splits if_splits)
qed

lemma those_map_mono:
  assumes "those (map f xs) = Some ys"
      and "\<And>x y. x \<in> set xs \<Longrightarrow> f x = Some y \<Longrightarrow> g x = Some y"
  shows "those (map g xs) = Some ys"
  using assms
proof (induction xs arbitrary: ys)
  case Nil
  then show ?case by simp
next
  case (Cons x xs)
  from Cons.prems(1) obtain y ys' where y: "f x = Some y" "those (map f xs) = Some ys'" "ys = y # ys'"
    by (auto split: option.splits)
  from Cons.IH [OF y(2)] Cons.prems(2) have "those (map g xs) = Some ys'" by auto
  moreover from Cons.prems(2) y(1) have "g x = Some y" by auto
  ultimately show ?case using y(3) by simp
qed

lemma reify_prefix:
  "reify n st v = Some j \<Longrightarrow> n \<le> m \<Longrightarrow> take (length st) st2 = st \<Longrightarrow> reify m st2 v = Some j"
proof (induction n arbitrary: v j m)
  case 0
  then show ?case by (cases v) auto
next
  case (Suc n)
  show ?case
  proof (cases v)
    case (VRef a)
    from Suc.prems(2) obtain m' where m: "m = Suc m'" "n \<le> m'" by (cases m) auto
    from Suc.prems(1) VRef have a: "a < length st" by (auto split: if_splits)
    from Suc.prems(3) have len: "length st \<le> length st2"
      by (metis length_take min.cobounded1)
    from Suc.prems(3) a have same: "st2 ! a = st ! a"
      by (metis nth_take)
    show ?thesis
    proof (cases "st ! a")
      case (Array vs)
      with Suc.prems(1) VRef a obtain js where js: "those (map (reify n st) vs) = Some js" "j = JArr js"
        by auto
      have "those (map (reify m' st2) vs) = Some js"
        using js(1) Suc.IH [OF _ m(2) Suc.prems(3)] by (rule those_map_mono)
      with VRef m a len same Array js(2) show ?thesis by simp
    next
      case (Object fs)
      with Suc.prems(1) VRef a obtain gs where gs:
        "those (map (\<lambda>(p, v). map_option (Pair p) (reify n st v)) fs) = Some gs" "j = JObj gs"
        by auto
      have "those (map (\<lambda>(p, v). map_option (Pair p) (reify m' st2 v)) fs) = Some gs"
        using gs(1)
      proof (rule those_map_mono)
        fix x y
        assume x: "(case x of (p, v) \<Rightarrow> map_option (Pair p) (reify n st v)) = Some y"
        obtain p w where pw: "x = (p, w)" by (cases x)
        with x obtain k where k: "reify n st w = Some k" "y = (p, k)" by auto
        from Suc.IH [OF k(1) m(2) Suc.prems(3)] pw k(2)
        show "(case x of (p, v) \<Rightarrow> map_option (Pair p) (reify m' st2 v)) = Some y"
          by simp
      qed
      with VRef m a len same Object gs(2) show ?thesis by simp
    qed
  qed (use Suc.prems(1) in simp_all)
qed

lemma JSON_stringify_store_prefix:
  assumes "JSON_stringify_store st v = Some j" "take (length st) st2 = st"
  shows "JSON_stringify_store st2 v = Some j"
proof -
  from assms(2) have "length st \<le> length st2"
    by (metis length_take min.cobounded1)
  from reify_prefix [OF assms(1) [unfolded JSON_stringify_store_def] this assms(2)]
  show ?thesis
    by (simp add: JSON_stringify_store_def)
qed

lemma those_append:
  "those (map f xs) = Some as \<Longrightarrow> those (map f ys) = Some bs
     \<Longrightarrow> those (map f (xs @ ys)) = Some (as @ bs)"
  by (induction xs arbitrary: as) (auto split: option.splits)

lemma those_map_length: "those (map f xs) = Some ys \<Longrightarrow> length ys = length xs"
  by (induction xs arbitrary: ys) (auto split: option.splits)

lemma alloc_length:
  assumes "alloc j st = (v, st')"
  shows "length st \<le> length st'" "take (length st) st' = st"
  using alloc_extends(1) [OF assms] by auto

lemma alloc_list_length:
  assumes "alloc_list js st = (vs, st')"
  shows "length st \<le> length st'" "take (length st) st' = st"
  using alloc_extends(2) [OF assms] by auto

lemma alloc_fields_length:
  assumes "alloc_fields fs st = (gs, st')"
  shows "length st \<le> length st'" "take (length st) st' = st"
  using alloc_extends(3) [OF assms] by auto

lemma alloc_reify:
  "alloc j st = (v, st') \<Longrightarrow> reify (length st' - length st) st' v = Some j"
  "alloc_list js st = (vs, st')
     \<Longrightarrow> those (map (reify (length st' - length st) st') vs) = Some js"
  "alloc_fields fs st = (gs, st')
     \<Longrightarrow> those (map (\<lambda>(p, v). map_option (Pair p) (reify (length st' - length st) st' v)) gs)
         = Some fs"
proof (induction j st and js st and fs st arbitrary: v st' and vs st' and gs st'
       rule: alloc_alloc_list_alloc_fields.induct)
  case (5 xs st)
  obtain vs st1 where a: "alloc_list xs st = (vs, st1)" by (cases "alloc_list xs st")
  with 5 have st': "st' = st1 @ [Array vs]" and v: "v = VRef (length st1)" by auto
  from alloc_list_length [OF a] have len: "Suc (length st1) - length st = Suc (length st1 - length st)"
    by simp
  have "those (map (reify (length st1 - length st) st') vs) = Some xs"
    using "5.IH" [OF a]
  proof (rule those_map_mono)
    fix w y
    assume "reify (length st1 - length st) st1 w = Some y"
    from reify_prefix [OF this order_refl, of st']
    show "reify (length st1 - length st) st' w = Some y" by (simp add: st')
  qed
  then show ?case by (simp add: len v st')
next
  case (6 fs st)
  obtain gs st1 where a: "alloc_fields fs st = (gs, st1)" by (cases "alloc_fields fs st")
  with 6 have st': "st' = st1 @ [Object gs]" and v: "v = VRef (length st1)" by auto
  from alloc_fields_length [OF a] have len: "Suc (length st1) - length st = Suc (length st1 - length st)"
    by simp
  have "those (map (\<lambda>(p, v). map_option (Pair p) (reify (length st1 - length st) st' v)) gs)
          = Some fs"
    using "6.IH" [OF a]
  proof (rule those_map_mono)
    fix x y
    assume x: "(case x of (p, v) \<Rightarrow> map_option (Pair p) (reify (length st1 - length st) st1 v)) = Some y"
    obtain p w where pw: "x = (p, w)" by (cases x)
    with x obtain k where k: "reify (length st1 - length st) st1 w = Some k" "y = (p, k)" by auto
    from reify_prefix [OF k(1) order_refl, of st'] pw k(2)
    show "(case x of (p, v) \<Rightarrow> map_option (Pair p) (reify (length st1 - length st) st' v)) = Some y"
      by (simp add: st')
  qed
  then show ?case by (simp add: len v st')
next
  case (8 x xs st)
  obtain v1 st1 where a: "alloc x st = (v1, st1)" by (cases "alloc x st")
  obtain vs2 st2 where b: "alloc_list xs st1 = (vs2, st2)" by (cases "alloc_list xs st1")
  from 8 a b have eq: "vs = v1 # vs2" "st' = st2" by auto
  note l1 = alloc_length [OF a] and l2 = alloc_list_length [OF b]
  from "8.IH"(1) [OF a] have "reify (length st1 - length st) st1 v1 = Some x" .
  from reify_prefix [OF this _ l2(2)] l1 l2
  have h: "reify (length st2 - length st) st2 v1 = Some x" by simp
  have t: "those (map (reify (length st2 - length st) st2) vs2) = Some xs"
    using "8.IH"(2) [OF a [symmetric] b]
  proof (rule those_map_mono)
    fix w y
    assume "reify (length st2 - length st1) st2 w = Some y"
    from reify_prefix [OF this, of "length st2 - length st" st2] l1 l2
    show "reify (length st2 - length st) st2 w = Some y" by simp
  qed
  from h t eq show ?case by simp
next
  case (10 p x fs st)
  obtain v1 st1 where a: "alloc x st = (v1, st1)" by (cases "alloc x st")
  obtain gs2 st2 where b: "alloc_fields fs st1 = (gs2, st2)" by (cases "alloc_fields fs st1")
  from 10 a b have eq: "gs = (p, v1) # gs2" "st' = st2" by auto
  note l1 = alloc_length [OF a] and l2 = alloc_fields_length [OF b]
  from "10.IH"(1) [OF a] have "reify (length st1 - length st) st1 v1 = Some x" .
  from reify_prefix [OF this _ l2(2)] l1 l2
  have h: "reify (length st2 - length st) st2 v1 = Some x" by simp
  have t: "those (map (\<lambda>(p, v). map_option (Pair p) (reify (length st2 - length st) st2 v)) gs2)
             = Some fs"
    using "10.IH"(2) [OF a [symmetric] b]
  proof (rule those_map_mono)
    fix z y
    assume z: "(case z of (p, v) \<Rightarrow> map_option (Pair p) (reify (length st2 - length st1) st2 v)) = Some y"
    obtain q w where qw: "z = (q, w)" by (cases z)
    with z obtain k where k: "reify (length st2 - length st1) st2 w = Some k" "y = (q, k)" by auto
    from reify_prefix [OF k(1), of "length st2 - length st" st2] l1 l2 qw k(2)
    show "(case z of (p, v) \<Rightarrow> map_option (Pair p) (reify (length st2 - length st) st2 v)) = Some y"
      by simp
  qed
  from h t eq show ?case by simp
qed auto

lemma reify_update_below:
  "fresh_from lo st \<Longrightarrow> is_new lo v \<Longrightarrow> n0 < lo \<Longrightarrow> reify k (st[n0 := c]) v = reify k st v"
proof (induction k arbitrary: v)
  case 0
  then show ?case by (cases v) auto
next
  case (Suc k)
  show ?case
  proof (cases v)
    case (VRef a)
    with Suc.prems have a: "lo \<le> a" "a \<noteq> n0" by auto
    show ?thesis
    proof (cases "a < length st")
      case False
      with VRef show ?thesis by simp
    next
      case True
      from fresh_from_nth [OF Suc.prems(1) a(1) True] have new: "cell_new lo (st ! a)" .
      show ?thesis
      proof (cases "st ! a")
        case (Array vs)
        with new have "\<forall>w \<in> set vs. is_new lo w" by (simp add: list_all_iff)
        with Suc.IH [OF Suc.prems(1) _ Suc.prems(3)]
        have eq: "map (reify k (st[n0 := c])) vs = map (reify k st) vs"
          by (intro map_cong) auto
        from VRef True a Array show ?thesis by (simp add: eq)
      next
        case (Object fs)
        with new have "\<forall>(p, w) \<in> set fs. is_new lo w" by (simp add: list_all_iff)
        with Suc.IH [OF Suc.prems(1) _ Suc.prems(3)]
        have eq: "map (\<lambda>(p, v). map_option (Pair p) (reify k (st[n0 := c]) v)) fs
                = map (\<lambda>(p, v). map_option (Pair p) (reify k st v)) fs"
          by (intro map_cong) auto
        from VRef True a Object show ?thesis by (simp add: eq)
      qed
    qed
  qed simp_all
qed

lemma copied_start: "copied (length st) st (st @ [Array []]) []"
  by (simp add: copied_def fresh_from_def)

lemma reify_array:
  assumes "reify k st v = Some (JArr js)"
  shows "\<exists>a vs k'. v = VRef a \<and> k = Suc k' \<and> a < length st \<and> st ! a = Array vs
                    \<and> those (map (reify k' st) vs) = Some js"
proof (cases v)
  case (VRef a)
  with assms obtain k' where k: "k = Suc k'" by (cases k) auto
  with assms VRef have a: "a < length st" by (auto split: if_splits)
  with assms VRef k show ?thesis by (cases "st ! a") auto
qed (use assms in auto)

lemma copied_result:
  assumes "copied n0 st s js"
  shows "JSON_stringify_store s (VRef n0) = Some (JArr js)"
proof -
  from assms obtain vs where vs: "n0 < length s" "s ! n0 = Array vs"
      "\<forall>k \<ge> length s - 1. those (map (reify k s) vs) = Some js"
    by (auto simp: copied_def)
  from vs(1) obtain k where k: "length s = Suc k" by (cases "length s") auto
  with vs show ?thesis by (simp add: JSON_stringify_store_def)
qed

lemma copy_into_copied:
  assumes inv: "copied (length st) st s js"
      and x: "JSON_stringify_store st x = Some (JArr xs)"
  shows "\<exists>s'. copy_into (length st) x s = (Inr (), s') \<and> copied (length st) st s' (js @ xs)"
proof -
  let ?n = "length st"
  from inv obtain vs where s: "take ?n s = st" "?n < length s" "fresh_from (Suc ?n) s"
      "s ! ?n = Array vs" "list_all (is_new (Suc ?n)) vs"
      "\<forall>k \<ge> length s - 1. those (map (reify k s) vs) = Some js"
    by (auto simp: copied_def)
  have stringified: "JSON_stringify_store s x = Some (JArr xs)"
    using x s(1) by (rule JSON_stringify_store_prefix)
  obtain ws sB where al: "alloc_list xs s = (ws, sB)" by (cases "alloc_list xs s")
  let ?s2 = "sB @ [Array ws]"
  let ?s' = "?s2[?n := Array (vs @ ws)]"
  note lB = alloc_list_length [OF al]
  have alloc: "alloc (JArr xs) s = (VRef (length sB), ?s2)"
    by (simp add: al)
  have at: "?s2 ! ?n = Array vs"
    using s(2,4) lB by (metis nth_append nth_take order_less_le_trans)
  have run: "copy_into ?n x s = (Inr (), ?s')"
    by (simp add: copy_into_def stringified al spread_def push_all_def at)
  have lo: "Suc ?n \<le> length s" using s(2) by simp
  from alloc_fresh(2) [OF al lo s(3)]
  have fB: "fresh_from (Suc ?n) sB" and nw: "list_all (is_new (Suc ?n)) ws" by auto
  have f2: "fresh_from (Suc ?n) ?s2"
    using fB nw lo lB by (simp add: fresh_from_append)
  have f': "fresh_from (Suc ?n) ?s'"
    using f2 by (rule fresh_from_update) (simp add: s(5) nw)
  have t2: "take (length s) ?s2 = s"
    using lB by simp
  have pre: "take ?n ?s' = st"
    using s(1,2) lB by (metis append_eq_conv_conj t2 take_update_cancel order_refl take_take min.absorb1 less_imp_le)
  have den: "those (map (reify k ?s') (vs @ ws)) = Some (js @ xs)" if k: "length ?s' - 1 \<le> k" for k
  proof -
    from k lB have k1: "length s - 1 \<le> k" and k2: "length sB - length s \<le> k" by auto
    have a2: "those (map (reify k ?s2) vs) = Some js"
    proof (rule those_map_mono)
      show "those (map (reify k s) vs) = Some js" using s(6) k1 by blast
    next
      fix w y
      assume "reify k s w = Some y"
      from reify_prefix [OF this order_refl t2] show "reify k ?s2 w = Some y" .
    qed
    have b2: "those (map (reify k ?s2) ws) = Some xs"
    proof (rule those_map_mono)
      show "those (map (reify (length sB - length s) sB) ws) = Some xs"
        using al by (rule alloc_reify(2))
    next
      fix w y
      assume "reify (length sB - length s) sB w = Some y"
      from reify_prefix [OF this k2, of ?s2] show "reify k ?s2 w = Some y" by simp
    qed
    have same: "map (reify k ?s') (vs @ ws) = map (reify k ?s2) (vs @ ws)"
    proof (intro map_cong refl)
      fix w
      assume "w \<in> set (vs @ ws)"
      with s(5) nw have "is_new (Suc ?n) w" by (auto simp: list_all_iff)
      with f2 show "reify k ?s' w = reify k ?s2 w"
        by (intro reify_update_below) auto
    qed
    show ?thesis
      unfolding same using a2 b2 by (rule those_append)
  qed
  have "copied ?n st ?s' (js @ xs)"
    unfolding copied_def
  proof (intro conjI exI [of _ "vs @ ws"] allI impI)
    show "take ?n ?s' = st" by (rule pre)
    show "?n < length ?s'" using s(2) lB by simp
    show "fresh_from (Suc ?n) ?s'" by (rule f')
    show "?s' ! ?n = Array (vs @ ws)" using s(2) lB by simp
    show "list_all (is_new (Suc ?n)) (vs @ ws)" using s(5) nw by simp
    fix k assume "length ?s' - 1 \<le> k"
    then show "those (map (reify k ?s') (vs @ ws)) = Some (js @ xs)" by (rule den)
  qed
  with run show ?thesis by blast
qed

lemma has_elements_array:
  assumes "JSON_stringify_store st v = Some (JArr js)"
  shows "has_elements (st @ ext) v = Inr (js \<noteq> [])"
proof -
  from reify_array [OF assms [unfolded JSON_stringify_store_def]]
  obtain a vs k where a: "v = VRef a" "a < length st" "st ! a = Array vs"
      "those (map (reify k st) vs) = Some js"
    by blast
  from those_map_length [OF a(4)] have "js \<noteq> [] \<longleftrightarrow> length vs > 0" by auto
  with a show ?thesis by (simp add: has_elements_def nth_append)
qed

lemma mergeDefaultTeams_store_value:
  assumes "JSON_stringify_store st defaults = Some (JArr ds)"
      and "JSON_stringify_store st servers = Some (JArr xs)"
  shows "\<exists>st'. mergeDefaultTeams_store defaults enabled servers st = (Inr (VRef (length st)), st')
           \<and> JSON_stringify_store st' (VRef (length st))
               = Some (JArr (mergeDefaultTeams
                               \<lparr>defaultTeams = ds, enableServerManagement = enabled\<rparr> xs))"
proof -
  let ?n = "length st"
  let ?st0 = "st @ [Array []]"
  have has: "has_elements ?st0 defaults = Inr (ds \<noteq> [])"
    using assms(1) by (rule has_elements_array)
  obtain st1 where one:
      "(if ds \<noteq> [] then copy_into ?n defaults ?st0 else (Inr (), ?st0)) = (Inr (), st1)"
      "copied ?n st st1 ds"
    using copy_into_copied [OF copied_start assms(1)] copied_start [of st]
    by (cases "ds = []") auto
  obtain st2 where two:
      "(if enabled then copy_into ?n servers st1 else (Inr (), st1)) = (Inr (), st2)"
      "copied ?n st st2 (ds @ (if enabled then xs else []))"
    using copy_into_copied [OF one(2) assms(2)] one(2)
    by (cases enabled) auto
  have "mergeDefaultTeams_store defaults enabled servers st = (Inr (VRef ?n), st2)"
    by (simp add: mergeDefaultTeams_store_def Let_def has one(1) two(1))
  moreover have "JSON_stringify_store st2 (VRef ?n)
      = Some (JArr (mergeDefaultTeams \<lparr>defaultTeams = ds, enableServerManagement = enabled\<rparr> xs))"
    using copied_result [OF two(2)] by (simp add: mergeDefaultTeams_eq)
  ultimately show ?thesis by blast
qed

text \<open>
  Claim C10. \<open>mergeDefaultTeams\<close> does not change its inputs and shares nothing with
  them. After the call every cell that existed before is as it was, so every value
  that denoted JSON data before, the user's list and the vendor defaults among them,
  denotes the same data. The cells made by the call refer only to cells made by the
  call, and the result is one of them, so no entry of the result is an entry of an
  input. Writing to any cell made by the call (changing the result) leaves the old
  cells and what the inputs denote as they were. When both inputs are lists, the call
  returns and its result denotes the list the merge on values gives.
\<close>

theorem C10_merge_copies_its_inputs:
  assumes "mergeDefaultTeams_store defaults enabled servers st = (r, st')"
  shows "take (length st) st' = st
       \<and> (\<forall>x j. JSON_stringify_store st x = Some j \<longrightarrow> JSON_stringify_store st' x = Some j)
       \<and> fresh_from (length st) st'
       \<and> (\<forall>v. r = Inr v \<longrightarrow> v = VRef (length st) \<and> length st < length st')
       \<and> (\<forall>a c. length st \<le> a \<longrightarrow>
             take (length st) (st'[a := c]) = st
             \<and> (\<forall>x j. JSON_stringify_store st x = Some j
                    \<longrightarrow> JSON_stringify_store (st'[a := c]) x = Some j))
       \<and> (\<forall>ds xs. JSON_stringify_store st defaults = Some (JArr ds)
                 \<and> JSON_stringify_store st servers = Some (JArr xs)
             \<longrightarrow> r = Inr (VRef (length st))
                 \<and> JSON_stringify_store st' (VRef (length st))
                     = Some (JArr (mergeDefaultTeams
                                     \<lparr>defaultTeams = ds, enableServerManagement = enabled\<rparr>
                                     xs)))"
proof -
  note frame = mergeDefaultTeams_store_frame [OF assms]
  have kept: "JSON_stringify_store st2 x = Some j"
    if "take (length st) st2 = st" "JSON_stringify_store st x = Some j" for st2 x j
    using that(2,1) by (rule JSON_stringify_store_prefix)
  have upd: "take (length st) (st'[a := c]) = st" if "length st \<le> a" for a c
    using frame that by simp
  have val: "r = Inr (VRef (length st))
             \<and> JSON_stringify_store st' (VRef (length st))
                 = Some (JArr (mergeDefaultTeams
                                 \<lparr>defaultTeams = ds, enableServerManagement = enabled\<rparr> xs))"
    if "JSON_stringify_store st defaults = Some (JArr ds)"
       "JSON_stringify_store st servers = Some (JArr xs)" for ds xs
    using mergeDefaultTeams_store_value [OF that, of enabled] assms by auto
  show ?thesis
    using frame kept upd val by blast
qed

theorem C10_merge_copies_its_inputs_witness:
  "mergeDefaultTeams_store (VRef 1) True (VRef 3) example_store
     = (Inr (VRef 4),
        example_store @
        [Array [VRef 5, VRef 7],
         Object [(''url'', VStr ''a'')],
         Array [VRef 5],
         Object [(''url'', VStr ''a''), (''name'', VStr ''mine'')],
         Array [VRef 7]])
   \<and> JSON_stringify_store example_store (VRef 1) = Some (JArr [JObj [(''url'', JStr ''a'')]])
   \<and> JSON_stringify_store example_store (VRef 3)
       = Some (JArr [JObj [(''url'', JStr ''a''), (''name'', JStr ''mine'')]])
   \<and> take 4 ((snd (mergeDefaultTeams_store (VRef 1) True (VRef 3) example_store))
                 [7 := Object [(''url'', VStr ''changed'')]])
       = example_store
   \<and> JSON_stringify_store
         (snd (mergeDefaultTeams_store (VRef 1) True (VRef 3) example_store)) (VRef 3)
       = Some (JArr [JObj [(''url'', JStr ''a''), (''name'', JStr ''mine'')]])
   \<and> JSON_stringify_store
         (snd (mergeDefaultTeams_store (VRef 1) True (VRef 3) example_store)) (VRef 4)
       = Some (JArr [JObj [(''url'', JStr ''a'')],
                     JObj [(''url'', JStr ''a''), (''name'', JStr ''mine'')]])"
  using C10_merge_copies_its_inputs [of "VRef 1" True "VRef 3" example_store
      "fst (mergeDefaultTeams_store (VRef 1) True (VRef 3) example_store)"
      "snd (mergeDefaultTeams_store (VRef 1) True (VRef 3) example_store)"]
  by (simp add: mergeDefaultTeams_store_def has_elements_def copy_into_def spread_def
                push_all_def JSON_stringify_store_def example_store_def Let_def)

end
